theory Spec2Isabelle
  imports Complex_Main "HOL-Library.Word"
begin

unbundle bit_operations_syntax

section \<open>The PWM valve and pump controller (PCA9685\_controller.py)\<close>

text \<open>
  Python floats are modelled as the real numbers: the embedding follows the arithmetic the
  code writes, not the rounding of IEEE-754 doubles. Python integers are \<open>int\<close>.
  Configuration objects are records with the fields of the dataclasses. Two dataclasses
  of the source share the field names \<open>output_channel\<close>, \<open>pulse_min\<close> and
  \<open>pulse_max\<close>; a record field is a constant, so the fields of \<open>PumpConfig\<close> carry the
  prefix \<open>pump_\<close>.
\<close>

subsection \<open>Configuration data classes\<close>

record ChannelConfig =
  output_channel :: nat
  pulse_min :: int
  pulse_max :: int
  direction :: int
  center :: real
  deadzone :: real
  affects_pump :: bool
  toggleable :: bool
  deadband_us_pos :: real
  deadband_us_neg :: real
  dither_enable :: bool
  dither_amp_us :: real
  dither_hz :: real
  ramp_enable :: bool
  ramp_limit :: real
  gamma :: real

text \<open>
  \<open>ChannelConfig.__post_init__\<close>: a missing \<open>center\<close> becomes the midpoint of the pulse
  range, and \<open>deadzone_threshold\<close> is the dead zone as a fraction.
\<close>

definition post_init_center :: "int \<Rightarrow> int \<Rightarrow> real option \<Rightarrow> real" where
  "post_init_center pmin pmax c =
     (case c of
        None \<Rightarrow> real_of_int pmin + real_of_int (pmax - pmin) / 2
      | Some x \<Rightarrow> x)"

definition deadzone_threshold :: "ChannelConfig \<Rightarrow> real" where
  "deadzone_threshold config = deadzone config / 100"

record PumpConfig =
  pump_output_channel :: nat
  pump_pulse_min :: int
  pump_pulse_max :: int
  idle :: real
  multiplier :: real

text \<open>The constants of \<open>PWMConstants\<close> that the modelled functions read.\<close>

definition MAX_CHANNELS :: nat where
  "MAX_CHANNELS = 16"

definition DUTY_CYCLE_MAX :: real where
  "DUTY_CYCLE_MAX = 65535"

definition PULSE_MIN :: int where
  "PULSE_MIN = 0"

definition PULSE_MAX :: int where
  "PULSE_MAX = 4095"


text \<open>Python's \<open>int(x)\<close> on a float truncates towards zero.\<close>

definition py_int :: "real \<Rightarrow> int" where
  "py_int x = (if 0 \<le> x then \<lfloor>x\<rfloor> else \<lceil>x\<rceil>)"

subsection \<open>The pure part of the pulse computation\<close>

definition apply_gamma :: "real \<Rightarrow> real \<Rightarrow> real" where
  "apply_gamma v g =
     (if g = 1 \<or> v = 0 then v
      else (if 0 \<le> v then 1 else - 1) * (\<bar>v\<bar> powr g))"

definition compute_base_pulse :: "ChannelConfig \<Rightarrow> real \<Rightarrow> real" where
  "compute_base_pulse config v =
     (let s = v * real_of_int (direction config) in
      if s = 0 then center config
      else if 0 < s then
        (let base = center config + deadband_us_pos config;
             working_range = real_of_int (pulse_max config) - base
         in base + \<bar>v\<bar> * working_range)
      else
        (let base = center config - deadband_us_neg config;
             working_range = base - real_of_int (pulse_min config)
         in base - \<bar>v\<bar> * working_range))"

text \<open>
  The dither phase uses the decimal literals of the source, not \<open>pi\<close>.
\<close>

definition dither_phase :: "ChannelConfig \<Rightarrow> real \<Rightarrow> real" where
  "dither_phase config now =
     2 * 3.141592653589793 * dither_hz config * now
       + real (output_channel config) * 1.0471975512"

definition apply_dither :: "ChannelConfig \<Rightarrow> real \<Rightarrow> real \<Rightarrow> real \<Rightarrow> real" where
  "apply_dither config pulse v now =
     (if dither_enable config \<and> deadzone_threshold config \<le> \<bar>v\<bar>
      then pulse + dither_amp_us config * sin (dither_phase config now)
      else pulse)"

definition clamp_pulse :: "ChannelConfig \<Rightarrow> real \<Rightarrow> real" where
  "clamp_pulse config pulse =
     max (real_of_int (pulse_min config)) (min (real_of_int (pulse_max config)) pulse)"

subsection \<open>Controller state\<close>

text \<open>
  The exceptions the modelled methods can raise. \<open>UnboundLocalError\<close> is the subclass of
  \<open>NameError\<close> that Python raises for a local variable read before its first assignment;
  its argument is the variable's name. \<open>IndexError\<close> is an index outside the list of
  command values, \<open>RuntimeError\<close> the refusal of \<open>_hardware_init\<close>.
\<close>

datatype py_error = UnboundLocalError string | IndexError | RuntimeError

text \<open>
  The logger calls the properties speak about: the error lines of \<open>update_named\<close>, the
  debug line of \<open>_update_channels\<close> (output channel, pulse, duty cycle), the debug line of
  \<open>_update_pump\<close> (pulse, duty cycle) and the line of the monitor on entering its safe
  state. Debug prints and the remaining info lines are left out.
\<close>

datatype log_entry =
    ErrNoConfig string
  | ErrInvalidValue string real
  | DebugChannel nat real int
  | DebugPump real int
  | InfoSafeState

text \<open>
  The fields of \<open>PWMController\<close> that the modelled methods read or write.
  \<open>cmd_values\<close> is the list \<open>self.values\<close> of the current normalized values, indexed
  by output channel.
  \<open>duty_cycle\<close> is \<open>pca.channels[i].duty_cycle\<close>, the register of the peripheral.
  \<open>input_event\<close> is the flag of the \<open>threading.Event\<close>. \<open>channel_ramp_state\<close> is the
  dictionary from output channel to (last pulse, last time); it exists from the
  constructor on (\<open>reset\<close> calls \<open>_init_ramp_state\<close>), so the branch of \<open>_apply_ramp\<close>
  for a missing attribute is not modelled. \<open>logged\<close> collects the logger calls.
\<close>

record PWMController =
  pump_variable :: bool
  toggle_channels :: bool
  pump_enabled :: bool
  manual_pump_load :: real
  pump_variable_sum :: real
  pump_override_throttle :: "real option"
  pump_config :: "PumpConfig option"
  channel_configs :: "(string \<times> ChannelConfig) list"
  input_rate_threshold :: real
  skip_rate_checking :: bool
  is_safe_state :: bool
  input_event :: bool
  input_count :: int
  input_counter :: int
  last_input_time :: real
  cmd_values :: "real list"
  pwm_period_us :: real
  default_unset_to_zero :: bool
  duty_cycle :: "nat \<Rightarrow> int"
  channel_ramp_state :: "nat \<rightharpoonup> real \<times> real"
  last_ramp_dt :: real
  logged :: "log_entry list"

subsection \<open>Ramp, dither and clamp: \<open>_pulse_from_value\<close>\<close>

definition set_ramp_state :: "PWMController \<Rightarrow> nat \<Rightarrow> real \<times> real \<Rightarrow> PWMController" where
  "set_ramp_state st ch entry = st\<lparr>channel_ramp_state := (channel_ramp_state st)(ch \<mapsto> entry)\<rparr>"

definition apply_ramp ::
  "PWMController \<Rightarrow> ChannelConfig \<Rightarrow> real \<Rightarrow> real \<Rightarrow> real \<times> PWMController" where
  "apply_ramp st config target_pulse now =
     (case channel_ramp_state st (output_channel config) of
        None \<Rightarrow> (target_pulse, set_ramp_state st (output_channel config) (target_pulse, now))
      | Some (last_pulse, last_time) \<Rightarrow>
          if \<not> ramp_enable config \<or> ramp_limit config \<le> 0
          then (target_pulse, set_ramp_state st (output_channel config) (target_pulse, now))
          else
            (let dt_raw = max 0 (now - last_time);
                 dt = (if 0 < last_ramp_dt st then min dt_raw (last_ramp_dt st * 2) else dt_raw)
             in if dt \<le> 0
                then (last_pulse, set_ramp_state st (output_channel config) (last_pulse, now))
                else
                  (let allowed_step = ramp_limit config * dt;
                       delta = target_pulse - last_pulse;
                       new_pulse = (if \<bar>delta\<bar> \<le> allowed_step then target_pulse
                                    else last_pulse + allowed_step * (if 0 < delta then 1 else - 1));
                       st1 = set_ramp_state st (output_channel config) (new_pulse, now)
                   in (new_pulse,
                       if 0 < dt_raw then st1\<lparr>last_ramp_dt := dt_raw\<rparr> else st1))))"

text \<open>
  \<open>_pulse_from_value(config, value, now, apply_ramp)\<close>; \<open>now\<close> is the clock reading the
  method uses (its argument, or \<open>time.time()\<close> when the argument is \<open>None\<close>).
\<close>

definition pulse_from_value ::
  "PWMController \<Rightarrow> ChannelConfig \<Rightarrow> real \<Rightarrow> real \<Rightarrow> bool \<Rightarrow> real \<times> PWMController" where
  "pulse_from_value st config v now with_ramp =
     (let v1 = (if \<bar>v\<bar> < deadzone_threshold config then 0 else v);
          v2 = apply_gamma v1 (gamma config);
          base_pulse = compute_base_pulse config v2;
          (ramped, st1) = (if with_ramp then apply_ramp st config base_pulse now
                           else (base_pulse, st))
      in (clamp_pulse config (apply_dither config ramped v2 now), st1))"

text \<open>
  \<open>compute_pulse(name, value, now)\<close>: \<open>None\<close> for an unknown channel name. The
  dictionary of channel configurations is an association list in insertion order. The
  method calls \<open>_pulse_from_value\<close> without ramp, which leaves the controller as it is.
\<close>

definition compute_pulse :: "PWMController \<Rightarrow> string \<Rightarrow> real \<Rightarrow> real \<Rightarrow> real option" where
  "compute_pulse st name v now =
     (case map_of (channel_configs st) name of
        None \<Rightarrow> None
      | Some cfg \<Rightarrow> Some (fst (pulse_from_value st cfg (max (- 1) (min 1 v)) now False)))"

subsection \<open>\<open>reset\<close> and the constructor\<close>

definition duty_of_pulse :: "PWMController \<Rightarrow> real \<Rightarrow> int" where
  "duty_of_pulse st pulse = py_int (pulse / pwm_period_us st * DUTY_CYCLE_MAX)"

fun reset_channels :: "(string \<times> ChannelConfig) list \<Rightarrow> PWMController \<Rightarrow> PWMController" where
  "reset_channels [] st = st"
| "reset_channels ((name, config) # rest) st =
     reset_channels rest
       (st\<lparr>duty_cycle := (duty_cycle st)(output_channel config := duty_of_pulse st (center config))\<rparr>)"

fun init_ramp_entries ::
  "(string \<times> ChannelConfig) list \<Rightarrow> real \<Rightarrow> (nat \<rightharpoonup> real \<times> real) \<Rightarrow> (nat \<rightharpoonup> real \<times> real)" where
  "init_ramp_entries [] now m = m"
| "init_ramp_entries ((name, cfg) # rest) now m =
     init_ramp_entries rest now (m(output_channel cfg \<mapsto> (center cfg, now)))"

definition init_ramp_state :: "PWMController \<Rightarrow> real \<Rightarrow> PWMController" where
  "init_ramp_state st now =
     st\<lparr>channel_ramp_state := init_ramp_entries (channel_configs st) now Map.empty,
        last_ramp_dt := 0\<rparr>"

text \<open>\<open>reset(reset_pump)\<close>; \<open>now\<close> is the clock reading of \<open>_init_ramp_state\<close>.\<close>

definition reset :: "PWMController \<Rightarrow> bool \<Rightarrow> real \<Rightarrow> PWMController" where
  "reset st reset_pump now =
     (let st1 = reset_channels (channel_configs st) st;
          st2 = init_ramp_state st1 now;
          st3 = (case pump_config st2 of
                   None \<Rightarrow> st2
                 | Some pc \<Rightarrow>
                     if reset_pump
                     then st2\<lparr>duty_cycle := (duty_cycle st2)
                            (pump_output_channel pc := duty_of_pulse st2 (real_of_int (pump_pulse_min pc)))\<rparr>
                     else st2)
      in st3\<lparr>is_safe_state := False, input_count := 0, pump_override_throttle := None\<rparr>)"

text \<open>
  The constructor without \<open>emergency_reset\<close>. Its arguments stand for what it reads from
  outside: the validated configuration \<open>load_config\<close> returns, the period
  \<open>1e6 / pca.frequency\<close> the peripheral reports, and the clock. \<open>_hardware_init\<close> refuses
  a period below \<open>PULSE_MAX\<close>, so the period of a constructed controller is positive and
  no division by it fails. The registers of the peripheral start at 0. Starting the
  monitor thread and the watchdog process is outside the model.
\<close>

definition new_controller ::
  "bool \<Rightarrow> bool \<Rightarrow> real \<Rightarrow> bool \<Rightarrow> (string \<times> ChannelConfig) list \<Rightarrow> PumpConfig option
     \<Rightarrow> real \<Rightarrow> real \<Rightarrow> py_error + PWMController" where
  "new_controller pv tc threshold unset_to_zero cfgs pump period now =
     (if period < real_of_int PULSE_MAX then Inl RuntimeError
      else Inr (reset
        \<lparr> pump_variable = pv, toggle_channels = tc, pump_enabled = True,
          manual_pump_load = 0, pump_variable_sum = 0, pump_override_throttle = None,
          pump_config = pump, channel_configs = cfgs,
          input_rate_threshold = threshold, skip_rate_checking = (threshold = 0),
          is_safe_state = (threshold \<noteq> 0), input_event = False, input_count = 0,
          input_counter = 0, last_input_time = now,
          cmd_values = replicate MAX_CHANNELS 0, pwm_period_us = period,
          default_unset_to_zero = unset_to_zero, duty_cycle = (\<lambda>_. 0),
          channel_ramp_state = Map.empty, last_ramp_dt = 0, logged = [] \<rparr>
        True now))"

subsection \<open>\<open>update_named\<close>, \<open>_update_channels\<close> and \<open>_update_pump\<close>\<close>

text \<open>
  A command value is whatever the caller put into the dictionary: \<open>float(val)\<close> succeeds
  on a number (\<open>Num\<close>) and raises on anything else (\<open>NotNum\<close>, with the text of the object).
\<close>

datatype cmd_value = Num real | NotNum string

fun py_float :: "cmd_value \<Rightarrow> real option" where
  "py_float (Num r) = Some r"
| "py_float (NotNum s) = None"

definition set_value :: "real list \<Rightarrow> nat \<Rightarrow> real \<Rightarrow> py_error + real list" where
  "set_value vs i v = (if i < length vs then Inr (vs[i := v]) else Inl IndexError)"

text \<open>The loop \<open>for cfg in self.channel_configs.values(): self.values[...] = 0.0\<close>.\<close>

fun zero_values :: "(string \<times> ChannelConfig) list \<Rightarrow> real list \<Rightarrow> py_error + real list" where
  "zero_values [] vs = Inr vs"
| "zero_values ((name, cfg) # rest) vs =
     (case set_value vs (output_channel cfg) 0 of
        Inl e \<Rightarrow> Inl e
      | Inr vs1 \<Rightarrow> zero_values rest vs1)"

text \<open>
  The loop over \<open>commands.items()\<close>. The local variable \<open>value\<close> of \<open>update_named\<close> is
  \<open>None\<close> while it is unbound; the error branch of the conversion formats it into its
  message, which raises when it is unbound and logs the value of the previous command
  otherwise.
\<close>

fun apply_commands ::
  "(string \<times> ChannelConfig) list \<Rightarrow> (string \<times> cmd_value) list \<Rightarrow> real option
     \<Rightarrow> real list \<Rightarrow> log_entry list \<Rightarrow> py_error + real list \<times> log_entry list" where
  "apply_commands cfgs [] local_value vs lg = Inr (vs, lg)"
| "apply_commands cfgs ((name, val) # rest) local_value vs lg =
     (case map_of cfgs name of
        None \<Rightarrow> apply_commands cfgs rest local_value vs (lg @ [ErrNoConfig name])
      | Some cfg \<Rightarrow>
          (case py_float val of
             None \<Rightarrow>
               (case local_value of
                  None \<Rightarrow> Inl (UnboundLocalError ''value'')
                | Some stale \<Rightarrow>
                    apply_commands cfgs rest local_value vs (lg @ [ErrInvalidValue name stale]))
           | Some x \<Rightarrow>
               (let v1 = max (- 1) (min 1 x);
                    v2 = (if \<bar>v1\<bar> < deadzone_threshold cfg then 0 else v1)
                in case set_value vs (output_channel cfg) v2 of
                     Inl e \<Rightarrow> Inl e
                   | Inr vs1 \<Rightarrow> apply_commands cfgs rest (Some v2) vs1 lg)))"

text \<open>The loop that sums the magnitudes of the channels that affect the pump.\<close>

fun pump_sum :: "(string \<times> ChannelConfig) list \<Rightarrow> real list \<Rightarrow> real \<Rightarrow> py_error + real" where
  "pump_sum [] vs acc = Inr acc"
| "pump_sum ((name, cfg) # rest) vs acc =
     (if affects_pump cfg
      then (if output_channel cfg < length vs
            then pump_sum rest vs (acc + \<bar>vs ! output_channel cfg\<bar>)
            else Inl IndexError)
      else pump_sum rest vs acc)"

text \<open>
  \<open>_update_channels\<close>. Every iteration reads the clock; \<open>clock name\<close> is the reading in
  the iteration of the channel \<open>name\<close>.
\<close>

fun update_channels ::
  "(string \<times> ChannelConfig) list \<Rightarrow> (string \<Rightarrow> real) \<Rightarrow> PWMController
     \<Rightarrow> py_error + PWMController" where
  "update_channels [] clock st = Inr st"
| "update_channels ((name, config) # rest) clock st =
     (if \<not> toggle_channels st \<and> toggleable config then update_channels rest clock st
      else if length (cmd_values st) \<le> output_channel config then Inl IndexError
      else
        (let v = cmd_values st ! output_channel config;
             (pulse, st1) = pulse_from_value st config v (clock name) True;
             duty = duty_of_pulse st1 pulse
         in update_channels rest clock
              (st1\<lparr>duty_cycle := (duty_cycle st1)(output_channel config := duty),
                   logged := logged st1 @ [DebugChannel (output_channel config) pulse duty]\<rparr>)))"

text \<open>The pulse \<open>_update_pump\<close> computes from a throttle that is already clamped.\<close>

definition pump_pulse :: "PumpConfig \<Rightarrow> real \<Rightarrow> real" where
  "pump_pulse pc throttle =
     (let pulse_range = real_of_int (pump_pulse_max pc - pump_pulse_min pc)
      in real_of_int (pump_pulse_min pc) + pulse_range * ((throttle + 1) / 2))"

definition update_pump :: "PWMController \<Rightarrow> PWMController" where
  "update_pump st =
     (case pump_config st of
        None \<Rightarrow> st
      | Some pc \<Rightarrow>
          (let throttle0 =
                 (case pump_override_throttle st of
                    Some t \<Rightarrow> t
                  | None \<Rightarrow>
                      if \<not> pump_enabled st then - 1
                      else (if pump_variable st
                            then idle pc + multiplier pc * pump_variable_sum st / 10
                            else idle pc + multiplier pc / 10) + manual_pump_load st);
               throttle = max (- 1) (min 1 throttle0);
               pulse = pump_pulse pc throttle;
               duty = duty_of_pulse st pulse
           in st\<lparr>duty_cycle := (duty_cycle st)(pump_output_channel pc := duty),
                 logged := logged st @ [DebugPump pulse duty]\<rparr>))"

text \<open>
  The \<open>try\<close> block of \<open>update_named\<close> for a \<open>pump\<close> command. Its \<open>except\<close> branch
  formats the local variable \<open>value\<close> into the error message; \<open>value\<close> is assigned only
  further down, in the loop over the commands, so the branch raises instead of logging.
\<close>

definition pump_override :: "PWMController \<Rightarrow> (string \<times> cmd_value) list \<Rightarrow> py_error + PWMController" where
  "pump_override st commands =
     (case map_of commands ''pump'' of
        None \<Rightarrow> Inr st
      | Some val \<Rightarrow>
          (case pump_config st of
             None \<Rightarrow> Inr st
           | Some pc \<Rightarrow>
               (case py_float val of
                  Some pump_val \<Rightarrow>
                    Inr (st\<lparr>pump_override_throttle := Some (max (- 1) (min 1 pump_val))\<rparr>)
                | None \<Rightarrow> Inl (UnboundLocalError ''value''))))"

definition unset_values :: "PWMController \<Rightarrow> bool option \<Rightarrow> py_error + real list" where
  "unset_values st unset_to_zero =
     (let do_zero = (case unset_to_zero of None \<Rightarrow> default_unset_to_zero st | Some b \<Rightarrow> b)
      in if do_zero then zero_values (channel_configs st) (cmd_values st)
         else Inr (cmd_values st))"

text \<open>
  \<open>update_named(commands, unset_to_zero, one_shot_pump_override)\<close>. The dictionary of
  commands is an association list in insertion order. An exception leaves the method at
  once; the model returns the exception and drops the partly updated controller.
\<close>

definition update_named ::
  "PWMController \<Rightarrow> (string \<times> cmd_value) list \<Rightarrow> bool option \<Rightarrow> bool \<Rightarrow> (string \<Rightarrow> real)
     \<Rightarrow> py_error + PWMController" where
  "update_named st commands unset_to_zero one_shot_pump_override clock =
     (let st1 = (if \<not> skip_rate_checking st then st\<lparr>input_event := True\<rparr> else st) in
      if \<not> skip_rate_checking st1 \<and> \<not> is_safe_state st1 then Inr st1
      else
        (case pump_override st1 commands of
           Inl e \<Rightarrow> Inl e
         | Inr st2 \<Rightarrow>
             (case unset_values st2 unset_to_zero of
                Inl e \<Rightarrow> Inl e
              | Inr vs0 \<Rightarrow>
                  (case apply_commands (channel_configs st2) commands None vs0 (logged st2) of
                     Inl e \<Rightarrow> Inl e
                   | Inr (vs1, lg1) \<Rightarrow>
                       (case pump_sum (channel_configs st2) vs1 0 of
                          Inl e \<Rightarrow> Inl e
                        | Inr psum \<Rightarrow>
                            (case update_channels (channel_configs st2) clock
                                    (st2\<lparr>cmd_values := vs1, logged := lg1,
                                         pump_variable_sum := psum\<rparr>) of
                               Inl e \<Rightarrow> Inl e
                             | Inr st3 \<Rightarrow>
                                 (let st4 = update_pump st3
                                  in Inr (if one_shot_pump_override
                                          then st4\<lparr>pump_override_throttle := None\<rparr>
                                          else st4))))))))"

subsection \<open>The rate part of \<open>_monitor_loop\<close>\<close>


text \<open>The channel of the end-to-end scenarios of the specification, by its gamma.\<close>

definition scenario_channel :: "real \<Rightarrow> ChannelConfig" where
  "scenario_channel g =
     \<lparr> output_channel = 0, pulse_min = 1000, pulse_max = 2000, direction = 1,
       center = 1500, deadzone = 0, affects_pump = False, toggleable = False,
       deadband_us_pos = 40, deadband_us_neg = 40,
       dither_enable = False, dither_amp_us = 8, dither_hz = 40,
       ramp_enable = False, ramp_limit = 0, gamma = g \<rparr>"

text \<open>
  The scenario channel with dither switched on, on output 1: the input of the
  evaluation of \<open>compute_pulse\<close> at the value 0 below.
\<close>

definition dither_channel :: ChannelConfig where
  "dither_channel = (scenario_channel 1)\<lparr>output_channel := 1, dither_enable := True\<rparr>"

subsection \<open>Reading the emitted pulses off the log\<close>

text \<open>
  The debug line of \<open>_update_channels\<close> records, for every push to the peripheral, the
  output channel, the pulse and the duty cycle written. \<open>channel_writes\<close> selects these
  lines in order.
\<close>

fun channel_writes :: "log_entry list \<Rightarrow> (nat \<times> real \<times> int) list" where
  "channel_writes [] = []"
| "channel_writes (DebugChannel ch p d # rest) = (ch, p, d) # channel_writes rest"
| "channel_writes (e # rest) = channel_writes rest"

text \<open>
  \<open>push_writes ws regs\<close> are the duty-cycle registers of the peripheral after the writes
  \<open>ws\<close> have been made to the registers \<open>regs\<close>, in order. \<open>is_pump_output st ch\<close>: the
  output \<open>ch\<close> is the one of the pump, which \<open>_update_pump\<close> writes after the channels.
\<close>

fun push_writes :: "(nat \<times> real \<times> int) list \<Rightarrow> (nat \<Rightarrow> int) \<Rightarrow> nat \<Rightarrow> int" where
  "push_writes [] regs = regs"
| "push_writes (w # ws) regs = push_writes ws (regs(fst w := snd (snd w)))"

definition is_pump_output :: "PWMController \<Rightarrow> nat \<Rightarrow> bool" where
  "is_pump_output st ch =
     (case pump_config st of None \<Rightarrow> False | Some pc \<Rightarrow> ch = pump_output_channel pc)"

text \<open>
  \<open>emitted_ok period (name, config) (ch, pulse, duty)\<close>: the write goes to the output of
  the channel, the pulse lies within the limits of the channel, and the duty cycle is the
  truncation of \<open>pulse / period * 65535\<close>. \<open>is_pushed\<close> is the negation of the
  \<open>continue\<close> of \<open>_update_channels\<close>; \<open>bounds_ordered\<close> is the part of
  \<open>validate_config\<close> the clamp needs.
\<close>

definition emitted_ok :: "real \<Rightarrow> string \<times> ChannelConfig \<Rightarrow> nat \<times> real \<times> int \<Rightarrow> bool" where
  "emitted_ok period nc w =
     (fst w = output_channel (snd nc) \<and>
      real_of_int (pulse_min (snd nc)) \<le> fst (snd w) \<and>
      fst (snd w) \<le> real_of_int (pulse_max (snd nc)) \<and>
      snd (snd w) = py_int (fst (snd w) / period * 65535))"

definition is_pushed :: "bool \<Rightarrow> string \<times> ChannelConfig \<Rightarrow> bool" where
  "is_pushed toggles nc = (toggles \<or> \<not> toggleable (snd nc))"

definition bounds_ordered :: "string \<times> ChannelConfig \<Rightarrow> bool" where
  "bounds_ordered nc = (pulse_min (snd nc) \<le> pulse_max (snd nc))"

subsection \<open>Concrete controllers\<close>

text \<open>
  A pump configuration, and the controller the constructor builds at clock reading 0 for
  the scenario channel and this pump, without rate monitoring, on a peripheral that
  reports the nominal 50 Hz (a period of 20000 microseconds).
\<close>

definition demo_pump :: PumpConfig where
  "demo_pump = \<lparr> pump_output_channel = 9, pump_pulse_min = 1000, pump_pulse_max = 2000,
                  idle = - 0.5, multiplier = 0.5 \<rparr>"

definition scenario_controller :: PWMController where
  "scenario_controller =
     projr (new_controller False True 0 True [(''boom'', scenario_channel 1)] (Some demo_pump) 20000 0)"

subsection \<open>The interval of the ramp\<close>


text \<open>
  Two variants of the scenario channel with the ramp enabled: one without dither, and
  one with dither at 1 Hz and a ramp limit of one microsecond per second. The controller
  the constructor builds for a single channel \<open>boom\<close> at clock reading 0.
\<close>

definition ramp_channel :: ChannelConfig where
  "ramp_channel = (scenario_channel 1)\<lparr>ramp_enable := True, ramp_limit := 100\<rparr>"

definition ramp_dither_channel :: ChannelConfig where
  "ramp_dither_channel =
     (scenario_channel 1)\<lparr>ramp_enable := True, ramp_limit := 1,
                            dither_enable := True, dither_hz := 1\<rparr>"

definition single_channel_controller :: "ChannelConfig \<Rightarrow> PWMController" where
  "single_channel_controller c =
     projr (new_controller False True 0 True [(''boom'', c)] None 20000 0)"

subsection \<open>The monitor's safe state\<close>





section \<open>The datagram session (udp\_socket.py)\<close>

subsection \<open>The checksum\<close>

text \<open>
  The class attribute \<open>crc16 = crcmod.mkCrcFun(0x11021, initCrc=0xFFFF)\<close> comes from the
  library \<open>crcmod\<close>, which is not part of the repository. With the defaults of
  \<open>mkCrcFun\<close> (\<open>rev=True\<close>, \<open>xorOut=0\<close>) it is the bit-reflected CRC of the polynomial
  0x1021, whose reflection is 0x8408, started at 0xFFFF: for every byte, the byte is
  XOR-ed into the low byte of the register, and the register is shifted right eight
  times, each time XOR-ing 0x8408 in when the bit shifted out is set. (The library
  computes the eight shifts by a table; the value is the same. On the bytes of
  \<open>123456789\<close> the function yields 0x6F91.) A byte is an \<open>8 word\<close>, the register a
  \<open>16 word\<close>.
\<close>

type_synonym byte = "8 word"

definition crc_shift :: "16 word \<Rightarrow> 16 word" where
  "crc_shift c = (if bit c 0 then drop_bit 1 c XOR 0x8408 else drop_bit 1 c)"

definition crc_byte :: "16 word \<Rightarrow> byte \<Rightarrow> 16 word" where
  "crc_byte c b = (crc_shift ^^ 8) (c XOR ucast b)"

definition crc16 :: "byte list \<Rightarrow> 16 word" where
  "crc16 data = foldl crc_byte 0xFFFF data"

subsection \<open>Framing: \<open>struct.pack\<close> and \<open>struct.unpack\<close>\<close>

text \<open>
  The element types of \<open>send_types\<close>, with the standard sizes of \<open>struct\<close>. The format
  strings are little-endian (\<open><\<close>).
\<close>

datatype elem_type = T_b | T_B | T_h | T_H | T_i | T_I | T_q | T_Q | T_f | T_d

fun calcsize :: "elem_type \<Rightarrow> nat" where
  "calcsize T_b = 1" | "calcsize T_B = 1"
| "calcsize T_h = 2" | "calcsize T_H = 2"
| "calcsize T_i = 4" | "calcsize T_I = 4"
| "calcsize T_q = 8" | "calcsize T_Q = 8"
| "calcsize T_f = 4" | "calcsize T_d = 8"

fun is_signed :: "elem_type \<Rightarrow> bool" where
  "is_signed T_b = True" | "is_signed T_h = True" | "is_signed T_i = True"
| "is_signed T_q = True" | "is_signed t = False"

fun is_float :: "elem_type \<Rightarrow> bool" where
  "is_float T_f = True" | "is_float T_d = True" | "is_float t = False"

text \<open>
  A value of a vector is a Python integer or a Python float. A Python float is an IEEE-754
  binary64 number; the embedding carries it as its 64-bit encoding, so that
  \<open>PyFloat 0x3FF0000000000000\<close> is 1.0 and \<open>PyFloat 0x3FB999999999999A\<close> is 0.1.
\<close>

datatype py_value = PyInt int | PyFloat "64 word"

text \<open>
  \<open>le_bytes n v\<close> are the \<open>n\<close> little-endian bytes of \<open>v\<close> (two's complement for a
  negative \<open>v\<close>), \<open>le_int\<close> reads little-endian bytes as an unsigned integer.
\<close>

fun le_bytes :: "nat \<Rightarrow> int \<Rightarrow> byte list" where
  "le_bytes 0 v = []"
| "le_bytes (Suc n) v = word_of_int v # le_bytes n (v div 256)"

fun le_int :: "byte list \<Rightarrow> int" where
  "le_int [] = 0"
| "le_int (b # bs) = uint b + 256 * le_int bs"

text \<open>
  The integer types: \<open>struct.pack\<close> raises \<open>struct.error\<close> for an integer out of the
  range of the type, \<open>unpack_int\<close> reads the bytes back in two's complement.
\<close>

definition in_range :: "elem_type \<Rightarrow> int \<Rightarrow> bool" where
  "in_range t v =
     (if is_signed t then - (2 ^ (8 * calcsize t - 1)) \<le> v \<and> v < 2 ^ (8 * calcsize t - 1)
      else 0 \<le> v \<and> v < 2 ^ (8 * calcsize t))"

definition unpack_int :: "elem_type \<Rightarrow> byte list \<Rightarrow> int" where
  "unpack_int t bs =
     (let u = le_int bs
      in if is_signed t \<and> 2 ^ (8 * calcsize t - 1) \<le> u then u - 2 ^ (8 * calcsize t) else u)"

text \<open>
  The float types. The conversions work on encodings, read as natural numbers: sign bit,
  biased exponent and fraction. \<open>round_shift m sh\<close> is \<open>m / 2^sh\<close> rounded to the nearest
  integer, ties to the even one, which is the rounding of every conversion below.

  \<open>f32_of_f64\<close> is the C conversion \<open>(float)x\<close> followed by the test of \<open>PyFloat_Pack4\<close>:
  a finite double that rounds to an infinite float raises \<open>OverflowError\<close> (\<open>None\<close>).
  \<open>f64_of_f32\<close> is the exact conversion back that \<open>struct.unpack\<close> makes for \<open>f\<close>. For
  a NaN the upper bits of the payload are kept and the quiet bit is set.
  \<open>double_of_int\<close> is \<open>float(i)\<close>, which raises for an integer too large (\<open>None\<close>).
\<close>

definition round_shift :: "nat \<Rightarrow> nat \<Rightarrow> nat" where
  "round_shift m sh =
     (let q = m div 2 ^ sh; r = m mod 2 ^ sh
      in if 2 ^ sh < 2 * r \<or> (2 * r = 2 ^ sh \<and> odd q) then q + 1 else q)"

definition f32_of_f64 :: "nat \<Rightarrow> nat option" where
  "f32_of_f64 u =
     (let s = (u div 2 ^ 63) mod 2; e = (u div 2 ^ 52) mod 2048; m = u mod 2 ^ 52
      in if e = 2047
         then Some (s * 2 ^ 31 + 255 * 2 ^ 23
                      + (if m = 0 then 0 else 2 ^ 22 + (m div 2 ^ 29) mod 2 ^ 22))
         else
           (let ex = max e 1;
                mant = (if e = 0 then m else 2 ^ 52 + m);
                r = (ex - 897) * 2 ^ 23 + round_shift mant (29 + (897 - ex))
            in if 255 * 2 ^ 23 \<le> r then None else Some (s * 2 ^ 31 + r)))"

fun bit_len :: "nat \<Rightarrow> nat" where
  "bit_len n = (if n = 0 then 0 else Suc (bit_len (n div 2)))"

declare bit_len.simps [simp del]

definition f64_of_f32 :: "nat \<Rightarrow> nat" where
  "f64_of_f32 u =
     (let s = (u div 2 ^ 31) mod 2; e = (u div 2 ^ 23) mod 256; m = u mod 2 ^ 23
      in if e = 255
         then s * 2 ^ 63 + 2047 * 2 ^ 52
                + (if m = 0 then 0 else (2 ^ 22 + m mod 2 ^ 22) * 2 ^ 29)
         else if e = 0
         then (if m = 0 then s * 2 ^ 63
               else s * 2 ^ 63 + (bit_len m + 872) * 2 ^ 52 + m * 2 ^ (53 - bit_len m))
         else s * 2 ^ 63 + (e + 896) * 2 ^ 52 + m * 2 ^ 29)"

definition double_of_int :: "int \<Rightarrow> nat option" where
  "double_of_int i =
     (let a = nat \<bar>i\<bar>; n = bit_len a;
          r = (n + 1021) * 2 ^ 52 + round_shift (a * 2 ^ (53 - n)) (n - 53)
      in if a = 0 then Some 0
         else if 2047 * 2 ^ 52 \<le> r then None
         else Some ((if i < 0 then 2 ^ 63 else 0) + r))"

text \<open>
  The exceptions that leave \<open>send\<close> and the receive loop. \<open>TypeError\<close> is what
  \<open>struct.calcsize\<close> raises before the loop when no receive type has been negotiated.
\<close>

datatype udp_error = StructError | OverflowError | TypeError

text \<open>
  \<open>struct.pack\<close> for one element. An integer type takes an integer within its range; a
  float is refused. A float type takes a float, or an integer that \<open>float()\<close> converts
  (\<open>as_double\<close>, the \<open>PyFloat_AsDouble\<close> of the packer); \<open>d\<close> writes the eight bytes of the
  double, \<open>f\<close> the four bytes of the double rounded to binary32. \<open>struct.unpack\<close> returns
  an integer for an integer type and a float for a float type.
\<close>

fun as_double :: "py_value \<Rightarrow> udp_error + nat" where
  "as_double (PyFloat w) = Inr (unat w)"
| "as_double (PyInt i) = (case double_of_int i of None \<Rightarrow> Inl StructError | Some u \<Rightarrow> Inr u)"

definition pack_value :: "elem_type \<Rightarrow> py_value \<Rightarrow> udp_error + byte list" where
  "pack_value t v =
     (if is_float t then
        (case as_double v of
           Inl e \<Rightarrow> Inl e
         | Inr u \<Rightarrow>
             if t = T_d then Inr (le_bytes 8 (int u))
             else (case f32_of_f64 u of
                     None \<Rightarrow> Inl OverflowError
                   | Some r \<Rightarrow> Inr (le_bytes 4 (int r))))
      else
        (case v of
           PyInt i \<Rightarrow> if in_range t i then Inr (le_bytes (calcsize t) i) else Inl StructError
         | PyFloat w \<Rightarrow> Inl StructError))"

definition unpack_value :: "elem_type \<Rightarrow> byte list \<Rightarrow> py_value" where
  "unpack_value t bs =
     (if t = T_d then PyFloat (of_nat (nat (le_int bs)))
      else if t = T_f then PyFloat (of_nat (f64_of_f32 (nat (le_int bs))))
      else PyInt (unpack_int t bs))"

text \<open>
  \<open>struct.pack(format, *values)\<close> and \<open>struct.unpack(format, data)\<close> for a format of
  \<open>n\<close> elements of one type. The elements are packed from left to right, and the first
  one that cannot be packed raises. \<open>None\<close> is the \<open>struct.error\<close> of \<open>struct.unpack\<close> for
  data of the wrong size.
\<close>

fun pack_values :: "elem_type \<Rightarrow> py_value list \<Rightarrow> udp_error + byte list" where
  "pack_values t [] = Inr []"
| "pack_values t (v # vs) =
     (case pack_value t v of
        Inl e \<Rightarrow> Inl e
      | Inr b \<Rightarrow> (case pack_values t vs of Inl e \<Rightarrow> Inl e | Inr bs \<Rightarrow> Inr (b @ bs)))"

fun unpack_chunks :: "elem_type \<Rightarrow> nat \<Rightarrow> byte list \<Rightarrow> py_value list" where
  "unpack_chunks t 0 bs = []"
| "unpack_chunks t (Suc n) bs =
     unpack_value t (take (calcsize t) bs) # unpack_chunks t n (drop (calcsize t) bs)"

definition unpack_values :: "elem_type \<Rightarrow> nat \<Rightarrow> byte list \<Rightarrow> py_value list option" where
  "unpack_values t n bs =
     (if length bs = n * calcsize t then Some (unpack_chunks t n bs) else None)"

text \<open>
  What a vector looks like at the other end. \<open>stored_as t v\<close> is the value that
  \<open>struct.unpack\<close> returns for the bytes that \<open>struct.pack\<close> wrote for \<open>v\<close> with the
  element type \<open>t\<close>: the double itself for \<open>d\<close>, the double rounded to binary32 for \<open>f\<close>,
  the integer for an integer type. \<open>sendable t v\<close> describes values that the element type
  takes: an integer within the range of an integer type, any float for \<open>d\<close>, for \<open>f\<close> a
  float that is infinite, a NaN or of a magnitude below \<open>2^127\<close> (a biased exponent below
  1150), and for both float types an integer of a magnitude below \<open>2^53\<close>. \<open>f32_exact w\<close> describes doubles that binary32 represents: zero, and the
  doubles in the normal range of binary32 whose lower 29 fraction bits are zero.
\<close>

definition stored_as :: "elem_type \<Rightarrow> py_value \<Rightarrow> py_value" where
  "stored_as t v =
     (if t = T_d then PyFloat (of_nat (projr (as_double v)))
      else if t = T_f
        then PyFloat (of_nat (f64_of_f32 (the (f32_of_f64 (projr (as_double v))))))
      else v)"

definition f64_exponent :: "64 word \<Rightarrow> nat" where
  "f64_exponent w = (unat w div 2 ^ 52) mod 2048"

fun sendable :: "elem_type \<Rightarrow> py_value \<Rightarrow> bool" where
  "sendable t (PyInt i) = (if is_float t then \<bar>i\<bar> < 2 ^ 53 else in_range t i)"
| "sendable t (PyFloat w) =
     (t = T_d \<or> (t = T_f \<and> (f64_exponent w < 1150 \<or> f64_exponent w = 2047)))"

definition f32_exact :: "64 word \<Rightarrow> bool" where
  "f32_exact w =
     (unat w mod 2 ^ 63 = 0 \<or>
      (897 \<le> f64_exponent w \<and> f64_exponent w \<le> 1150 \<and> unat w mod 2 ^ 29 = 0))"

subsection \<open>Session state, \<open>send\<close>, \<open>get_latest\<close> and the receive loop\<close>

text \<open>
  The fields of \<open>UDPSocket\<close> that the modelled methods read or write. The infinite
  initial values of \<open>_delay_min\<close> and \<open>_delay_max\<close> are \<open>None\<close>.
\<close>

type_synonym addr = "string \<times> nat"

record UDPSocket =
  remote_addr :: "addr option"
  num_inputs :: nat
  num_outputs :: nat
  max_age_seconds :: real
  send_type :: elem_type
  receive_type :: "elem_type option"
  latest_data :: "py_value list option"
  latest_timestamp :: real
  running :: bool
  packets_received :: nat
  packets_sent :: nat
  packets_expired :: nat
  packets_shape_invalid :: nat
  packets_corrupted :: nat
  last_packet_time :: real
  delay_tracking :: bool
  delay_mean :: real
  delay_m2 :: real
  delay_min :: "real option"
  delay_max :: "real option"
  delay_n :: real

definition validate_crc :: "byte list \<Rightarrow> int \<Rightarrow> bool" where
  "validate_crc data checksum = (uint (crc16 data) = checksum)"

text \<open>
  \<open>send(values)\<close>: the result is the return value, the datagram handed to the socket (if
  any) and the session afterwards; \<open>Inl\<close> is the exception of \<open>struct.pack\<close>, which
  \<open>send\<close> does not catch.
\<close>

definition send ::
  "UDPSocket \<Rightarrow> py_value list \<Rightarrow> udp_error + bool \<times> byte list option \<times> UDPSocket" where
  "send st vals =
     (if remote_addr st = None then Inr (False, None, st)
      else if length vals \<noteq> num_outputs st then Inr (False, None, st)
      else
        (case pack_values (send_type st) vals of
           Inl e \<Rightarrow> Inl e
         | Inr data_wo_crc \<Rightarrow>
             (let data = data_wo_crc @ le_bytes 2 (uint (crc16 data_wo_crc))
              in Inr (True, Some data, st\<lparr>packets_sent := packets_sent st + 1\<rparr>))))"

text \<open>
  \<open>get_latest()\<close> at the clock reading \<open>now\<close>. The method returns \<open>False\<close> when the
  session is not running, \<open>None\<close> for no data or stale data, and the stored list otherwise.
\<close>

datatype latest_result = ReturnedFalse | ReturnedNone | Returned "py_value list"

definition get_latest :: "UDPSocket \<Rightarrow> real \<Rightarrow> latest_result \<times> UDPSocket" where
  "get_latest st now =
     (if \<not> running st then (ReturnedFalse, st)
      else
        (case latest_data st of
           None \<Rightarrow> (ReturnedNone, st)
         | Some d \<Rightarrow>
             (let age = now - latest_timestamp st
              in if max_age_seconds st < age
                 then (ReturnedNone, st\<lparr>packets_expired := packets_expired st + 1\<rparr>)
                 else (Returned d, st\<lparr>latest_data := None\<rparr>))))"

text \<open>
  One pass of the body of \<open>_receive_loop\<close> for the datagram \<open>data\<close> that \<open>recvfrom\<close>
  returned from the address \<open>a\<close>, with \<open>arrival_time\<close> the clock reading taken for it.
  \<open>BreakWithCleanup\<close> is the \<open>except Exception\<close> branch (close, cleanup callback, break).
\<close>

datatype loop_control = Continue | Break | BreakWithCleanup

definition learn_addr :: "UDPSocket \<Rightarrow> addr \<Rightarrow> UDPSocket" where
  "learn_addr st a = (if remote_addr st = None then st\<lparr>remote_addr := Some a\<rparr> else st)"

definition track_delay :: "UDPSocket \<Rightarrow> real \<Rightarrow> UDPSocket" where
  "track_delay st arrival_time =
     (if delay_tracking st \<and> last_packet_time st \<noteq> 0 then
        (let interval = max 0 (arrival_time - last_packet_time st);
             n = delay_n st + 1;
             delta = interval - delay_mean st;
             mean = delay_mean st + delta / n
         in st\<lparr>delay_n := n, delay_mean := mean,
                delay_m2 := delay_m2 st + delta * (interval - mean),
                delay_min := Some (case delay_min st of None \<Rightarrow> interval | Some m \<Rightarrow> min m interval),
                delay_max := Some (case delay_max st of None \<Rightarrow> interval | Some m \<Rightarrow> max m interval)\<rparr>)
      else st)"

definition receive_step ::
  "UDPSocket \<Rightarrow> byte list \<Rightarrow> addr \<Rightarrow> real \<Rightarrow> udp_error + loop_control \<times> UDPSocket" where
  "receive_step st data a arrival_time =
     (case receive_type st of
        None \<Rightarrow> Inl TypeError
      | Some rt \<Rightarrow>
          (let expected_size = calcsize rt * num_inputs st + 2;
               st1 = learn_addr st a
           in if data = [] then Inr (Break, st1)
              else if length data = expected_size then
                (let values_data = take (length data - 2) data;
                     received_crc = le_int (drop (length data - 2) data)
                 in if \<not> validate_crc values_data received_crc
                    then Inr (Continue, st1\<lparr>packets_corrupted := packets_corrupted st1 + 1\<rparr>)
                    else
                      (case unpack_values rt (num_inputs st1) values_data of
                         None \<Rightarrow> Inr (BreakWithCleanup, st1)
                       | Some vals \<Rightarrow>
                           (let st2 = track_delay st1 arrival_time
                            in Inr (Continue,
                                 st2\<lparr>latest_data := Some vals,
                                      latest_timestamp := arrival_time,
                                      packets_received := packets_received st2 + 1,
                                      last_packet_time := arrival_time\<rparr>))))
              else Inr (Continue, st1\<lparr>packets_shape_invalid := packets_shape_invalid st1 + 1\<rparr>)))"

text \<open>
  A sender and a receiver of three 32-bit floats, the vector of the floats 1.0, 0.5 and
  0.0, the frame the sender builds for it (twelve bytes of payload and the checksum
  0x1D7F, low byte first), and the receiver after it has received that frame at clock
  reading 10. \<open>tenth\<close> is the float 0.1, which binary32 does not represent, and
  \<open>tenth_as_f32\<close> the float 0.10000000149011612, the binary32 number nearest to it.
\<close>

definition demo_sender :: UDPSocket where
  "demo_sender =
     \<lparr> remote_addr = Some (''192.168.0.10'', 5431), num_inputs = 0, num_outputs = 3,
       max_age_seconds = 1, send_type = T_f, receive_type = Some T_f,
       latest_data = None, latest_timestamp = 0, running = True,
       packets_received = 0, packets_sent = 0, packets_expired = 0,
       packets_shape_invalid = 0, packets_corrupted = 0, last_packet_time = 0,
       delay_tracking = False, delay_mean = 0, delay_m2 = 0,
       delay_min = None, delay_max = None, delay_n = 0 \<rparr>"

definition demo_receiver :: UDPSocket where
  "demo_receiver = demo_sender\<lparr>remote_addr := None, num_inputs := 3, num_outputs := 0\<rparr>"

definition demo_values :: "py_value list" where
  "demo_values = [PyFloat 0x3FF0000000000000, PyFloat 0x3FE0000000000000, PyFloat 0]"

definition tenth :: py_value where
  "tenth = PyFloat 0x3FB999999999999A"

definition tenth_as_f32 :: py_value where
  "tenth_as_f32 = PyFloat 0x3FB99999A0000000"

text \<open>
  A sender and a receiver of one 32-bit float, and the frame the sender builds for the
  vector of \<open>tenth\<close>: the four bytes of the binary32 number 0x3DCCCCCD and the checksum
  0x9522, low byte first.
\<close>

definition tenth_sender :: UDPSocket where
  "tenth_sender = demo_sender\<lparr>num_outputs := 1\<rparr>"

definition tenth_receiver :: UDPSocket where
  "tenth_receiver = demo_receiver\<lparr>num_inputs := 1\<rparr>"

definition tenth_frame :: "byte list" where
  "tenth_frame = [205, 204, 204, 61, 34, 149]"

definition demo_frame :: "byte list" where
  "demo_frame = [0, 0, 128, 63, 0, 0, 0, 63, 0, 0, 0, 0, 127, 29]"

definition demo_received :: UDPSocket where
  "demo_received =
     snd (projr (receive_step demo_receiver demo_frame (''192.168.0.20'', 5431) 10))"

section \<open>The operation coordinator (ExcavatorAPI.py)\<close>

text \<open>
  \<open>current_operation\<close> holds one of the codes of \<open>ExcavatorAPIProperties.OPERATIONS\<close>
  (none 0, mirroring 1, driving 2, driving\_and\_mirroring 3); the embedding uses a
  datatype for them. \<open>operation_name\<close> is the lookup in \<open>OPERATIONS_REVERSE\<close> that
  \<open>get_current_operation\<close> does.
\<close>

datatype operation = OpNone | OpMirroring | OpDriving | OpDrivingAndMirroring

fun operation_code :: "operation \<Rightarrow> nat" where
  "operation_code OpNone = 0"
| "operation_code OpMirroring = 1"
| "operation_code OpDriving = 2"
| "operation_code OpDrivingAndMirroring = 3"

fun operation_name :: "operation \<Rightarrow> string" where
  "operation_name OpNone = ''none''"
| "operation_name OpMirroring = ''mirroring''"
| "operation_name OpDriving = ''driving''"
| "operation_name OpDrivingAndMirroring = ''driving_and_mirroring''"

text \<open>
  What the coordinator hands to the control channel: \<open>send_error\<close> wraps its message and
  context into an \<open>error\<close> event, \<open>send_response\<close> sends an event by its name. A client
  socket is identified by a number; \<open>None\<close> is the missing socket.
\<close>

datatype out_message = ErrorEvent string string | Event string

record ExcavatorAPI =
  current_operation :: operation
  operation_initator_socket :: "nat option"
  mirroring :: bool
  mirroring_starting :: bool
  mirroring_stopping :: bool
  driving :: bool
  driving_starting :: bool
  driving_stopping :: bool
  driving_and_mirroring :: bool
  driving_and_mirroring_starting :: bool
  driving_and_mirroring_stopping :: bool
  tcp_sent :: "(nat option \<times> out_message) list"

definition send_error :: "ExcavatorAPI \<Rightarrow> nat option \<Rightarrow> string \<Rightarrow> string \<Rightarrow> ExcavatorAPI" where
  "send_error st sock msg ctx = st\<lparr>tcp_sent := tcp_sent st @ [(sock, ErrorEvent msg ctx)]\<rparr>"

definition send_response :: "ExcavatorAPI \<Rightarrow> nat option \<Rightarrow> string \<Rightarrow> ExcavatorAPI" where
  "send_response st sock event = st\<lparr>tcp_sent := tcp_sent st @ [(sock, Event event)]\<rparr>"

definition busy_message :: "ExcavatorAPI \<Rightarrow> string" where
  "busy_message st =
     ''Operation: '' @ operation_name (current_operation st)
       @ '' already underway stop it first to start a different one.''"

definition transition_message :: string where
  "transition_message = ''Orientation tracker is not intialized. start_mirroring first''"

text \<open>\<open>_check_operation(client_tcp_sck, context)\<close>.\<close>

definition check_operation :: "ExcavatorAPI \<Rightarrow> nat option \<Rightarrow> string \<Rightarrow> bool \<times> ExcavatorAPI" where
  "check_operation st sock ctx =
     (if operation_code (current_operation st) \<noteq> 0
      then (False, send_error st sock (busy_message st) ctx)
      else (True, st))"

text \<open>
  The blocks \<open>with self.data_lock:\<close> at the head of the three start transitions. Each
  either returns from the method (\<open>Return\<close>, with the returned value, \<open>None\<close> for a bare
  \<open>return\<close>) or claims the operation and lets the method go on to start its services
  outside the lock (\<open>Proceed\<close>).
\<close>

datatype entry_result = Return "bool option" | Proceed

definition start_driving_entry :: "ExcavatorAPI \<Rightarrow> nat option \<Rightarrow> entry_result \<times> ExcavatorAPI" where
  "start_driving_entry st sock =
     (let (ok, st1) = check_operation st sock ''start_driving'' in
      if \<not> ok then (Return None, st1)
      else if driving st1 then
        (Return (Some True),
         if sock \<noteq> None then send_response st1 sock ''started_driving'' else st1)
      else if driving_starting st1 \<or> driving_stopping st1 then
        (Return None, send_error st1 sock transition_message ''start_driving'')
      else
        (Proceed, st1\<lparr>driving_starting := True, current_operation := OpDriving,
                       driving := True\<rparr>))"

definition start_mirroring_entry :: "ExcavatorAPI \<Rightarrow> nat option \<Rightarrow> entry_result \<times> ExcavatorAPI" where
  "start_mirroring_entry st sock =
     (let (ok, st1) = check_operation st sock ''start_mirroring'' in
      if \<not> ok then (Return (Some False), st1)
      else if mirroring st1 then
        (Return (Some True),
         if sock \<noteq> None then send_response st1 sock ''started_mirroring'' else st1)
      else if mirroring_starting st1 \<or> mirroring_stopping st1 then
        (Return (Some False), send_error st1 sock transition_message ''start_mirroring'')
      else
        (Proceed, st1\<lparr>mirroring_starting := True, mirroring := True,
                       current_operation := OpMirroring\<rparr>))"

definition start_driving_and_mirroring_entry ::
  "ExcavatorAPI \<Rightarrow> nat option \<Rightarrow> entry_result \<times> ExcavatorAPI" where
  "start_driving_and_mirroring_entry st sock =
     (let (ok, st1) = check_operation st sock ''start_driving_and_mirroring'' in
      if \<not> ok then (Return (Some False), st1)
      else if driving_and_mirroring st1 then
        (Return (Some True),
         if sock \<noteq> None then send_response st1 sock ''started_driving_and_mirroring'' else st1)
      else if driving_and_mirroring_stopping st1 \<or> driving_and_mirroring_starting st1 then
        (Return (Some False),
         send_error st1 sock transition_message ''start_driving_and_mirroring'')
      else
        (Proceed, st1\<lparr>driving_and_mirroring_starting := True, driving_and_mirroring := True,
                       current_operation := OpDrivingAndMirroring\<rparr>))"

text \<open>The coordinator as the constructor leaves it.\<close>

definition idle_api :: ExcavatorAPI where
  "idle_api =
     \<lparr> current_operation = OpNone, operation_initator_socket = None,
       mirroring = False, mirroring_starting = False, mirroring_stopping = False,
       driving = False, driving_starting = False, driving_stopping = False,
       driving_and_mirroring = False, driving_and_mirroring_starting = False,
       driving_and_mirroring_stopping = False, tcp_sent = [] \<rparr>"

text \<open>
  The rest of \<open>start_driving\<close> once the services have started: the block under the lock that
  records the initiating client and answers it, and the \<open>finally\<close> clause, which clears
  \<open>driving_starting\<close> under the lock.
\<close>

definition start_driving_finish :: "ExcavatorAPI \<Rightarrow> nat option \<Rightarrow> ExcavatorAPI" where
  "start_driving_finish st sock =
     (let st1 = (if sock \<noteq> None
                 then send_response (st\<lparr>operation_initator_socket := sock\<rparr>) sock
                        ''started_driving''
                 else st)
      in st1\<lparr>driving_starting := False\<rparr>)"

text \<open>
  \<open>stop_driving\<close>: the block under the lock at its head, and the answer to the initiating
  client after \<open>_stop_driving_services\<close>.
\<close>

definition stop_driving_entry :: "ExcavatorAPI \<Rightarrow> nat option \<Rightarrow> entry_result \<times> ExcavatorAPI" where
  "stop_driving_entry st sock =
     (if \<not> driving st then
        (Return (Some True),
         if sock \<noteq> None then send_response st sock ''stopped_driving'' else st)
      else if driving_starting st \<or> driving_stopping st then
        (Return (Some False),
         if sock \<noteq> None then send_error st sock transition_message ''stop_driving'' else st)
      else (Proceed, st\<lparr>driving_stopping := True\<rparr>))"

definition stop_driving_respond :: "ExcavatorAPI \<Rightarrow> ExcavatorAPI" where
  "stop_driving_respond st =
     (case operation_initator_socket st of
        None \<Rightarrow> st
      | Some sock \<Rightarrow> send_response st (Some sock) ''stopped_driving'')"

text \<open>
  \<open>_reset_operation_values\<close>, which the \<open>finally\<close> clause of every stop transition calls.
  It has two parts. \<open>reset_operation_locked\<close> is the block \<open>with self.data_lock:\<close>: it reads
  the name of the current operation into a local variable and sets the current operation to
  none. \<open>reset_operation_flags\<close> is the chain of \<open>if\<close>/\<open>elif\<close> after the block, which clears
  the flags of the operation of that name once the lock has been released. (The rates and
  the stop event, which the block also resets, are not part of the record.) Between the two
  parts another thread can take the lock.
\<close>

definition reset_operation_locked :: "ExcavatorAPI \<Rightarrow> string \<times> ExcavatorAPI" where
  "reset_operation_locked st =
     (operation_name (current_operation st),
      st\<lparr>current_operation := OpNone, operation_initator_socket := None\<rparr>)"

definition reset_operation_flags :: "string \<Rightarrow> ExcavatorAPI \<Rightarrow> ExcavatorAPI" where
  "reset_operation_flags name st =
     (if name = ''mirroring'' then st\<lparr>mirroring := False, mirroring_stopping := False\<rparr>
      else if name = ''driving'' then st\<lparr>driving := False, driving_stopping := False\<rparr>
      else if name = ''driving_and_mirroring''
        then st\<lparr>driving_and_mirroring := False, driving_and_mirroring_stopping := False\<rparr>
      else st)"

text \<open>
  An operation is in a state other than none when its flag or one of its transition flags
  is set; \<open>active_operations\<close> lists the operations that are.
\<close>

fun in_non_none_state :: "ExcavatorAPI \<Rightarrow> operation \<Rightarrow> bool" where
  "in_non_none_state st OpNone = False"
| "in_non_none_state st OpMirroring =
     (mirroring st \<or> mirroring_starting st \<or> mirroring_stopping st)"
| "in_non_none_state st OpDriving =
     (driving st \<or> driving_starting st \<or> driving_stopping st)"
| "in_non_none_state st OpDrivingAndMirroring =
     (driving_and_mirroring st \<or> driving_and_mirroring_starting st
        \<or> driving_and_mirroring_stopping st)"

definition active_operations :: "ExcavatorAPI \<Rightarrow> operation list" where
  "active_operations st =
     filter (in_non_none_state st) [OpMirroring, OpDriving, OpDrivingAndMirroring]"

text \<open>
  The interleaving of two clients. Client 1 starts driving and lets the start complete,
  then stops driving; the stop runs up to the end of the locked block of
  \<open>_reset_operation_values\<close>. Client 2 then calls \<open>start_mirroring\<close>, which takes the lock.
  \<open>overlap_before_flags\<close> is the coordinator when the locked block of client 2 ends,
  \<open>overlap_after_flags\<close> the coordinator after the stop of client 1 has gone on to clear
  its flags.
\<close>

definition driving_started :: ExcavatorAPI where
  "driving_started = start_driving_finish (snd (start_driving_entry idle_api (Some 1))) (Some 1)"

definition driving_reset_locked :: "string \<times> ExcavatorAPI" where
  "driving_reset_locked =
     reset_operation_locked
       (stop_driving_respond (snd (stop_driving_entry driving_started (Some 1))))"

definition overlap_before_flags :: ExcavatorAPI where
  "overlap_before_flags = snd (start_mirroring_entry (snd driving_reset_locked) (Some 2))"

definition overlap_after_flags :: ExcavatorAPI where
  "overlap_after_flags = reset_operation_flags (fst driving_reset_locked) overlap_before_flags"

section \<open>Validation on the control channel (tcp\_server.py, dataclass\_types.py)\<close>

text \<open>The rate constants of \<open>ExcavatorAPIProperties\<close>.\<close>

definition MIN_RATE :: real where
  "MIN_RATE = 0.1"

definition MAX_RATE :: real where
  "MAX_RATE = 300"

definition ORIENTATION_SEND_MAX_RATE :: real where
  "ORIENTATION_SEND_MAX_RATE = 150"

definition COMMAND_RECEIVE_MAX_RATE :: real where
  "COMMAND_RECEIVE_MAX_RATE = 25"

text \<open>
  A rate parameter as \<open>data.get(...)\<close> yields it from the decoded JSON message: missing
  or \<open>null\<close> (\<open>Absent\<close>), a number, or a value on which \<open>float()\<close> raises \<open>ValueError\<close> (a
  string that is not a number, given by its text). \<open>truthy\<close> is the test \<open>if x:\<close> of Python.
  A parser returns \<open>(True, data, None)\<close> or \<open>_format_error_response(msg)\<close>; the
  embedding returns \<open>Inr data\<close> or \<open>Inl\<close> of the error, whose message is kept by kind.
\<close>

datatype json_rate = Absent | Number real | NotNumber string

fun truthy :: "json_rate \<Rightarrow> bool" where
  "truthy Absent = False"
| "truthy (Number r) = (r \<noteq> 0)"
| "truthy (NotNumber s) = (s \<noteq> [])"

fun float_of :: "json_rate \<Rightarrow> real option" where
  "float_of (Number r) = Some r"
| "float_of v = None"

datatype parse_error =
    RateNotBetween string real real
  | ParametersMissing
  | InvalidNumber
  | RateTooSmall real
  | NamesNotUnique
  | PumpNotAllowed
  | NameNotAvailable string

text \<open>\<open>__validate_rate(rate, context, max)\<close>; \<open>None\<close> is the success triple.\<close>

definition validate_rate :: "real \<Rightarrow> string \<Rightarrow> real option \<Rightarrow> parse_error option" where
  "validate_rate rate ctx mx =
     (let max_rate = (case mx of None \<Rightarrow> MAX_RATE | Some m \<Rightarrow> m)
      in if \<not> (MIN_RATE < rate \<and> rate < max_rate)
         then Some (RateNotBetween ctx MIN_RATE max_rate)
         else None)"

text \<open>
  \<open>__validate_channel_names(channel_names)\<close>; \<open>existing\<close> is the list
  \<open>PWMController.get_channel_names()\<close> reads from the configuration file.
\<close>

fun first_unavailable :: "string list \<Rightarrow> string list \<Rightarrow> string option" where
  "first_unavailable existing [] = None"
| "first_unavailable existing (name # rest) =
     (if name \<notin> set existing then Some name else first_unavailable existing rest)"

definition validate_channel_names :: "string list \<Rightarrow> string list \<Rightarrow> parse_error option" where
  "validate_channel_names existing channel_names =
     (if card (set channel_names) \<noteq> length channel_names then Some NamesNotUnique
      else if ''pump'' \<in> set channel_names then Some PumpNotAllowed
      else (case first_unavailable existing channel_names of
              Some name \<Rightarrow> Some (NameNotAvailable name)
            | None \<Rightarrow> None))"

definition parse_start_mirroring_params :: "json_rate \<Rightarrow> parse_error + json_rate" where
  "parse_start_mirroring_params orientation_send_rate =
     (if truthy orientation_send_rate then
        (case float_of orientation_send_rate of
           None \<Rightarrow> Inl InvalidNumber
         | Some r \<Rightarrow>
             (case validate_rate r ''orientation_send_rate'' (Some ORIENTATION_SEND_MAX_RATE) of
                Some e \<Rightarrow> Inl e
              | None \<Rightarrow> Inr (Number r)))
      else Inr orientation_send_rate)"

definition parse_start_driving_params ::
  "string list \<Rightarrow> string list option \<Rightarrow> json_rate \<Rightarrow> parse_error + string list \<times> json_rate" where
  "parse_start_driving_params existing channel_names data_sending_rate =
     (case channel_names of
        None \<Rightarrow> Inl ParametersMissing
      | Some names \<Rightarrow>
          if data_sending_rate = Absent then Inl ParametersMissing
          else
            (case validate_channel_names existing names of
               Some e \<Rightarrow> Inl e
             | None \<Rightarrow>
                 if truthy data_sending_rate then
                   (case float_of data_sending_rate of
                      None \<Rightarrow> Inl InvalidNumber
                    | Some r \<Rightarrow>
                        (case validate_rate r ''data_sending_rate''
                                (Some COMMAND_RECEIVE_MAX_RATE) of
                           Some e \<Rightarrow> Inl e
                         | None \<Rightarrow>
                             if \<not> (MIN_RATE < r \<and> r < MAX_RATE) then Inl (RateTooSmall MIN_RATE)
                             else Inr (names, Number r)))
                 else Inr (names, data_sending_rate)))"

definition parse_start_driving_and_mirroring_params ::
  "string list \<Rightarrow> string list option \<Rightarrow> json_rate \<Rightarrow> json_rate
     \<Rightarrow> parse_error + string list \<times> real \<times> real" where
  "parse_start_driving_and_mirroring_params existing channel_names data_sending_rate
       data_receiving_rate =
     (if channel_names = None \<or> channel_names = Some [] \<or> \<not> truthy data_sending_rate
          \<or> \<not> truthy data_receiving_rate
      then Inl ParametersMissing
      else
        (case (float_of data_receiving_rate, float_of data_sending_rate) of
           (Some receiving, Some sending) \<Rightarrow>
             (case validate_rate receiving ''data_receiving_rate''
                     (Some ORIENTATION_SEND_MAX_RATE) of
                Some e \<Rightarrow> Inl e
              | None \<Rightarrow>
                  (case validate_rate sending ''data_sending_rate''
                          (Some COMMAND_RECEIVE_MAX_RATE) of
                     Some e \<Rightarrow> Inl e
                   | None \<Rightarrow>
                       (case validate_channel_names existing (the channel_names) of
                          Some e \<Rightarrow> Inl e
                        | None \<Rightarrow>
                            if sending < MIN_RATE then Inl (RateTooSmall MIN_RATE)
                            else Inr (the channel_names, sending, receiving))))
         | _ \<Rightarrow> Inl InvalidNumber))"

section \<open>Properties of the pulse computation\<close>

text \<open>
  C5. For the channel with pulse_min 1000, center 1500, pulse_max 2000, both deadbands 40,
  direction +1, dead zone 0, ramp and dither disabled, the pulse computed for the value 0.5
  is 1770 with gamma 1 and 1655 with gamma 2, at any time.
\<close>

theorem compute_pulse_scenarios:
  "compute_pulse (st\<lparr>channel_configs := [(''boom'', scenario_channel 1)]\<rparr>) ''boom'' 0.5 now
     = Some 1770 \<and>
   compute_pulse (st\<lparr>channel_configs := [(''boom'', scenario_channel 2)]\<rparr>) ''boom'' 0.5 now
     = Some 1655"
  by (simp add: compute_pulse_def pulse_from_value_def scenario_channel_def
      deadzone_threshold_def apply_gamma_def compute_base_pulse_def apply_dither_def
      clamp_pulse_def Let_def power2_eq_square)

subsection \<open>Helper lemmas on the clamp\<close>

lemma clamp_pulse_inside:
  "real_of_int (pulse_min c) \<le> p \<Longrightarrow> p \<le> real_of_int (pulse_max c) \<Longrightarrow> clamp_pulse c p = p"
  by (simp add: clamp_pulse_def)

lemma clamp_pulse_bounds:
  "pulse_min c \<le> pulse_max c \<Longrightarrow>
   real_of_int (pulse_min c) \<le> clamp_pulse c p \<and> clamp_pulse c p \<le> real_of_int (pulse_max c)"
  by (simp add: clamp_pulse_def)


lemma sin_lit_pos: "0 < sin (1.0471975512::real)"
  by (rule sin_gt_zero_02) simp_all

text \<open>
  C3. The claim: for every configured channel \<open>compute_pulse(c, 0)\<close> is the center of the
  channel. The code adds the dither whenever \<open>abs(value) >= deadzone_threshold\<close>, which
  holds at the value 0 when the dead zone is 0. Evaluation at the failing input: the scenario
  channel with dither enabled, on output 1, at the clock reading 0, yields a pulse above the
  center 1500.
\<close>

theorem compute_pulse_zero_with_dither:
  "compute_pulse (st\<lparr>channel_configs := [(''boom'', dither_channel)]\<rparr>) ''boom'' 0 0
     = Some (1500 + 8 * sin 1.0471975512) \<and>
   (1500::real) < 1500 + 8 * sin 1.0471975512"
proof -
  let ?s = "sin (1.0471975512::real)"
  have b: "?s \<le> 1" by (rule sin_le_one)
  have p: "0 < ?s" by (rule sin_lit_pos)
  have lo: "real_of_int (pulse_min dither_channel) \<le> 1500 + 8 * ?s"
    using p by (simp add: dither_channel_def scenario_channel_def)
  have "1500 + 8 * ?s \<le> 2000" using b by linarith
  then have hi: "1500 + 8 * ?s \<le> real_of_int (pulse_max dither_channel)"
    by (simp add: dither_channel_def scenario_channel_def)
  have raw: "compute_pulse (st\<lparr>channel_configs := [(''boom'', dither_channel)]\<rparr>) ''boom'' 0 0
     = Some (clamp_pulse dither_channel (1500 + 8 * ?s))"
    by (simp add: compute_pulse_def pulse_from_value_def scenario_channel_def dither_channel_def
      deadzone_threshold_def apply_gamma_def compute_base_pulse_def apply_dither_def
      dither_phase_def Let_def)
  show ?thesis
    unfolding raw clamp_pulse_inside [OF lo hi] using p by simp
qed

text \<open>
  Where the dither is not applied at the value 0 (dither disabled, or a positive dead
  zone), a channel whose center lies within its limits does get its center.
\<close>

lemma compute_pulse_zero_center:
  assumes "map_of (channel_configs st) name = Some c"
    and "real_of_int (pulse_min c) \<le> center c" and "center c \<le> real_of_int (pulse_max c)"
    and "\<not> dither_enable c \<or> 0 < deadzone c"
  shows "compute_pulse st name 0 now = Some (center c)"
  using assms
  by (auto simp add: compute_pulse_def pulse_from_value_def
      deadzone_threshold_def apply_gamma_def compute_base_pulse_def apply_dither_def
      clamp_pulse_def Let_def)

subsection \<open>The pulses emitted by \<open>_update_channels\<close>\<close>

lemma channel_writes_append: "channel_writes (xs @ ys) = channel_writes xs @ channel_writes ys"
  by (induction xs rule: channel_writes.induct) simp_all

lemma apply_ramp_keeps:
  "apply_ramp st c t now = (p, st') \<Longrightarrow>
     pwm_period_us st' = pwm_period_us st \<and> toggle_channels st' = toggle_channels st \<and>
     cmd_values st' = cmd_values st \<and> logged st' = logged st \<and> duty_cycle st' = duty_cycle st \<and>
     channel_configs st' = channel_configs st \<and> pump_config st' = pump_config st"
  by (auto simp add: apply_ramp_def set_ramp_state_def Let_def split: option.splits if_splits prod.splits)

lemma pulse_from_value_keeps:
  "pulse_from_value st c v now r = (p, st') \<Longrightarrow>
     pwm_period_us st' = pwm_period_us st \<and> toggle_channels st' = toggle_channels st \<and>
     cmd_values st' = cmd_values st \<and> logged st' = logged st \<and> duty_cycle st' = duty_cycle st \<and>
     channel_configs st' = channel_configs st \<and> pump_config st' = pump_config st"
  by (auto simp add: pulse_from_value_def Let_def split: if_splits prod.splits dest: apply_ramp_keeps)

lemma pulse_from_value_bounds:
  "pulse_min c \<le> pulse_max c \<Longrightarrow> pulse_from_value st c v now r = (p, st') \<Longrightarrow>
     real_of_int (pulse_min c) \<le> p \<and> p \<le> real_of_int (pulse_max c)"
  by (auto simp add: pulse_from_value_def Let_def clamp_pulse_bounds split: prod.splits)

lemma update_channels_writes:
  "update_channels cfgs clock st = Inr st' \<Longrightarrow> list_all bounds_ordered cfgs \<Longrightarrow>
     \<exists>ws. channel_writes (logged st') = channel_writes (logged st) @ ws \<and>
          list_all2 (emitted_ok (pwm_period_us st)) (filter (is_pushed (toggle_channels st)) cfgs) ws \<and>
          duty_cycle st' = push_writes ws (duty_cycle st) \<and> pump_config st' = pump_config st"
proof (induction cfgs clock st rule: update_channels.induct)
  case (1 clock st)
  then show ?case by simp
next
  case (2 name config rest clock st)
  show ?case
  proof (cases "\<not> toggle_channels st \<and> toggleable config")
    case True
    with 2 show ?thesis by (simp add: is_pushed_def)
  next
    case False
    with "2.prems" have len: "\<not> length (cmd_values st) \<le> output_channel config"
      by (auto split: if_splits)
    obtain pulse st1 where pv:
      "pulse_from_value st config (cmd_values st ! output_channel config) (clock name) True = (pulse, st1)"
      by (cases "pulse_from_value st config (cmd_values st ! output_channel config) (clock name) True")
    let ?duty = "duty_of_pulse st1 pulse"
    let ?st2 = "st1\<lparr>duty_cycle := (duty_cycle st1)(output_channel config := ?duty),
                   logged := logged st1 @ [DebugChannel (output_channel config) pulse ?duty]\<rparr>"
    from "2.prems" False len pv have run: "update_channels rest clock ?st2 = Inr st'"
      by (simp add: Let_def)
    from "2.prems"(2) have okr: "list_all bounds_ordered rest" by simp
    from "2.prems"(2) have ok: "pulse_min config \<le> pulse_max config"
      by (simp add: bounds_ordered_def)
    note keep = pulse_from_value_keeps [OF pv]
    from "2.IH"(2) [OF False len refl pv [symmetric] refl refl run okr]
    obtain ws where ws: "channel_writes (logged st') = channel_writes (logged ?st2) @ ws"
      and all: "list_all2 (emitted_ok (pwm_period_us ?st2)) (filter (is_pushed (toggle_channels ?st2)) rest) ws"
      and regs: "duty_cycle st' = push_writes ws (duty_cycle ?st2)"
      and pump: "pump_config st' = pump_config ?st2"
      by blast
    have head: "emitted_ok (pwm_period_us st) (name, config) (output_channel config, pulse, ?duty)"
      using pulse_from_value_bounds [OF ok pv] keep
      by (simp add: emitted_ok_def duty_of_pulse_def DUTY_CYCLE_MAX_def)
    have "channel_writes (logged st') =
            channel_writes (logged st) @ ((output_channel config, pulse, ?duty) # ws)"
      using ws keep by (simp add: channel_writes_append)
    moreover have "list_all2 (emitted_ok (pwm_period_us st))
        (filter (is_pushed (toggle_channels st)) ((name, config) # rest))
        ((output_channel config, pulse, ?duty) # ws)"
      using all head False keep by (simp add: is_pushed_def)
    moreover have "duty_cycle st' =
        push_writes ((output_channel config, pulse, ?duty) # ws) (duty_cycle st)"
      using regs keep by simp
    moreover have "pump_config st' = pump_config st"
      using pump keep by simp
    ultimately show ?thesis by blast
  qed
qed

lemma apply_commands_log:
  "apply_commands cfgs cmds lv vs lg = Inr (vs', lg') \<Longrightarrow> channel_writes lg' = channel_writes lg"
  by (induction cfgs cmds lv vs lg rule: apply_commands.induct)
     (auto simp add: channel_writes_append Let_def split: option.splits sum.splits)

lemma update_pump_writes: "channel_writes (logged (update_pump st)) = channel_writes (logged st)"
  by (simp add: update_pump_def Let_def channel_writes_append split: option.splits)


lemma update_pump_registers:
  "\<not> is_pump_output st ch \<Longrightarrow> duty_cycle (update_pump st) ch = duty_cycle st ch"
  by (auto simp add: update_pump_def is_pump_output_def Let_def split: option.splits)

lemma list_all2_rightD: "list_all2 P xs ys \<Longrightarrow> y \<in> set ys \<Longrightarrow> \<exists>x\<in>set xs. P x y"
  by (induction rule: list_all2_induct) auto

lemma push_writes_other: "ch \<notin> fst ` set ws \<Longrightarrow> push_writes ws regs ch = regs ch"
  by (induction ws arbitrary: regs) auto

lemma push_writes_distinct:
  "distinct (map fst ws) \<Longrightarrow> w \<in> set ws \<Longrightarrow> push_writes ws regs (fst w) = snd (snd w)"
proof (induction ws arbitrary: regs)
  case Nil
  then show ?case by simp
next
  case (Cons a ws)
  show ?case
  proof (cases "w = a")
    case True
    with Cons.prems have "fst w \<notin> fst ` set ws" by auto
    then show ?thesis using True by (simp add: push_writes_other)
  next
    case False
    with Cons show ?thesis by auto
  qed
qed

lemma pump_override_keeps:
  "pump_override st commands = Inr st2 \<Longrightarrow>
     channel_configs st2 = channel_configs st \<and> pwm_period_us st2 = pwm_period_us st \<and>
     toggle_channels st2 = toggle_channels st \<and> logged st2 = logged st \<and>
     duty_cycle st2 = duty_cycle st \<and> pump_config st2 = pump_config st"
  by (auto simp add: pump_override_def split: option.splits)

lemma update_named_emits_tail:
  assumes "update_channels cfgs clock s = Inr st3" and "list_all bounds_ordered cfgs"
  shows "\<exists>ws. channel_writes (logged (update_pump st3)) = channel_writes (logged s) @ ws \<and>
          list_all2 (emitted_ok (pwm_period_us s)) (filter (is_pushed (toggle_channels s)) cfgs) ws \<and>
          (\<forall>ch. \<not> is_pump_output s ch \<longrightarrow>
                duty_cycle (update_pump st3) ch = push_writes ws (duty_cycle s) ch)"
proof -
  from update_channels_writes [OF assms] obtain ws where
    a: "channel_writes (logged st3) = channel_writes (logged s) @ ws"
    and b: "list_all2 (emitted_ok (pwm_period_us s)) (filter (is_pushed (toggle_channels s)) cfgs) ws"
    and c: "duty_cycle st3 = push_writes ws (duty_cycle s)"
    and d: "pump_config st3 = pump_config s"
    by blast
  have "duty_cycle (update_pump st3) ch = push_writes ws (duty_cycle s) ch"
    if "\<not> is_pump_output s ch" for ch
  proof -
    from that d have "\<not> is_pump_output st3 ch" by (simp add: is_pump_output_def)
    from update_pump_registers [OF this] c show ?thesis by simp
  qed
  with a b show ?thesis by (auto simp add: update_pump_writes)
qed

lemma scenario_controller_built:
  "new_controller False True 0 True [(''boom'', scenario_channel 1)] (Some demo_pump) 20000 0
     = Inr scenario_controller"
  by (simp add: scenario_controller_def new_controller_def PULSE_MAX_def)

lemma scenario_controller_fields:
  "skip_rate_checking scenario_controller"
  "channel_configs scenario_controller = [(''boom'', scenario_channel 1)]"
  "pwm_period_us scenario_controller = 20000"
  "toggle_channels scenario_controller"
  "pump_config scenario_controller = Some demo_pump"
  "logged scenario_controller = []"
  "cmd_values scenario_controller = replicate 16 0"
  "default_unset_to_zero scenario_controller"
  "pump_override_throttle scenario_controller = None"
  by (simp_all add: scenario_controller_def new_controller_def PULSE_MAX_def reset_def
      init_ramp_state_def Let_def demo_pump_def MAX_CHANNELS_def)

text \<open>
  The definitions that evaluate the controller on a concrete input.
\<close>

lemmas pwm_eval_defs =
  update_named_def pump_override_def unset_values_def update_pump_def pump_pulse_def
  pulse_from_value_def apply_ramp_def set_ramp_state_def apply_dither_def clamp_pulse_def
  compute_base_pulse_def apply_gamma_def deadzone_threshold_def duty_of_pulse_def py_int_def
  DUTY_CYCLE_MAX_def set_value_def Let_def
  scenario_controller_def new_controller_def PULSE_MAX_def reset_def
  init_ramp_state_def demo_pump_def MAX_CHANNELS_def scenario_channel_def

text \<open>
  C1. The claim: after \<open>update_named\<close> the pulse emitted for every configured channel
  lies within the limits of the channel, and the duty cycle pushed to the peripheral is
  \<open>round(pulse / pwm_period_us * 65535)\<close>. The code converts with \<open>int(...)\<close>, which
  truncates. Counterexample: on the scenario channel the command 0.5 emits the pulse 1770;
  the duty cycle written is 5799, while 1770 / 20000 * 65535 = 5799.8475 rounds to 5800.
\<close>

theorem update_named_duty_not_rounded:
  "map_sum id (\<lambda>s. channel_writes (logged s))
     (update_named scenario_controller [(''boom'', Num 0.5)] None True (\<lambda>_. 1))
   = Inr [(0, 1770, 5799)] \<and>
   (5799::int) \<noteq> round ((1770::real) / pwm_period_us scenario_controller * 65535)"
  by (simp add: pwm_eval_defs round_def)

text \<open>
  C1 as amended: when \<open>update_named\<close> returns and the commands were accepted (no rate
  monitoring, or the monitor accepts input), it pushes exactly the channels that the toggle
  does not skip, in the order of the configuration; every pulse emitted lies within
  \<open>[pulse_min, pulse_max]\<close> of its channel, and the duty cycle written is the truncation
  \<open>int(pulse / pwm_period_us * 65535)\<close>. These writes are what the peripheral holds
  afterwards: every duty-cycle register other than the one of the pump is the register
  before the call overwritten by the writes in order, so that, the outputs of the pushed
  channels being distinct, the register of each pushed channel holds the truncated duty
  cycle of the pulse emitted for it. The limits are ordered, as \<open>validate_config\<close>
  requires.
\<close>

theorem update_named_emits:
  assumes run: "update_named st commands uz os clock = Inr st'"
    and acc: "skip_rate_checking st \<or> is_safe_state st"
    and ord: "list_all bounds_ordered (channel_configs st)"
  shows "\<exists>ws. channel_writes (logged st') = channel_writes (logged st) @ ws \<and>
          list_all2 (emitted_ok (pwm_period_us st))
            (filter (is_pushed (toggle_channels st)) (channel_configs st)) ws \<and>
          (\<forall>ch. \<not> is_pump_output st ch \<longrightarrow>
                duty_cycle st' ch = push_writes ws (duty_cycle st) ch) \<and>
          (distinct (map fst ws) \<longrightarrow>
             (\<forall>w\<in>set ws. \<not> is_pump_output st (fst w) \<longrightarrow>
                duty_cycle st' (fst w) = py_int (fst (snd w) / pwm_period_us st * 65535)))"
proof -
  define st1 where "st1 = (if \<not> skip_rate_checking st then st\<lparr>input_event := True\<rparr> else st)"
  have acc1: "\<not> (\<not> skip_rate_checking st1 \<and> \<not> is_safe_state st1)"
    using acc by (auto simp add: st1_def)
  have k1: "channel_configs st1 = channel_configs st" "pwm_period_us st1 = pwm_period_us st"
       "toggle_channels st1 = toggle_channels st" "logged st1 = logged st"
       "duty_cycle st1 = duty_cycle st" "pump_config st1 = pump_config st"
    by (simp_all add: st1_def)
  from run acc1 obtain st2 vs0 vs1 lg1 psum st3 where
    po: "pump_override st1 commands = Inr st2"
    and cmds: "apply_commands (channel_configs st2) commands None vs0 (logged st2) = Inr (vs1, lg1)"
    and chans: "update_channels (channel_configs st2) clock
                 (st2\<lparr>cmd_values := vs1, logged := lg1, pump_variable_sum := psum\<rparr>) = Inr st3"
    and fin: "st' = (if os then (update_pump st3)\<lparr>pump_override_throttle := None\<rparr> else update_pump st3)"
    unfolding update_named_def st1_def [symmetric] Let_def
    by (auto split: sum.splits prod.splits if_splits)
  note k2 = pump_override_keeps [OF po]
  have lg: "channel_writes lg1 = channel_writes (logged st)"
    using apply_commands_log [OF cmds] k2 k1 by simp
  have ord2: "list_all bounds_ordered (channel_configs st2)" using ord k2 k1 by simp
  have pmp: "is_pump_output
      (st2\<lparr>cmd_values := vs1, logged := lg1, pump_variable_sum := psum\<rparr>) = is_pump_output st"
    using k1 k2 by (simp add: is_pump_output_def fun_eq_iff)
  from update_named_emits_tail [OF chans ord2]
  obtain ws where a: "channel_writes (logged (update_pump st3)) = channel_writes (logged st) @ ws"
    and b: "list_all2 (emitted_ok (pwm_period_us st))
            (filter (is_pushed (toggle_channels st)) (channel_configs st)) ws"
    and c: "\<forall>ch. \<not> is_pump_output st ch \<longrightarrow>
              duty_cycle (update_pump st3) ch = push_writes ws (duty_cycle st) ch"
    using lg k1 k2 pmp by auto
  have fin_log: "logged st' = logged (update_pump st3)"
    and fin_regs: "duty_cycle st' = duty_cycle (update_pump st3)"
    using fin by (cases os; simp)+
  have d: "duty_cycle st' (fst w) = py_int (fst (snd w) / pwm_period_us st * 65535)"
    if dist: "distinct (map fst ws)" and w: "w \<in> set ws" and np: "\<not> is_pump_output st (fst w)"
    for w
  proof -
    from list_all2_rightD [OF b w] obtain nc where "emitted_ok (pwm_period_us st) nc w"
      by blast
    then have "snd (snd w) = py_int (fst (snd w) / pwm_period_us st * 65535)"
      by (simp add: emitted_ok_def)
    moreover have "duty_cycle st' (fst w) = snd (snd w)"
      using c np push_writes_distinct [OF dist w] fin_regs by simp
    ultimately show ?thesis by simp
  qed
  from a b c d fin_log fin_regs show ?thesis by auto
qed

theorem update_named_emits_witness:
  "(skip_rate_checking scenario_controller \<or> is_safe_state scenario_controller) \<and>
   list_all bounds_ordered (channel_configs scenario_controller) \<and>
   (\<exists>ws. channel_writes (logged (projr (update_named scenario_controller [(''boom'', Num 0.5)]
              None True (\<lambda>_. 1))))
           = channel_writes (logged scenario_controller) @ ws \<and>
         list_all2 (emitted_ok (pwm_period_us scenario_controller))
           (filter (is_pushed (toggle_channels scenario_controller))
              (channel_configs scenario_controller)) ws) \<and>
   duty_cycle (projr (update_named scenario_controller [(''boom'', Num 0.5)]
              None True (\<lambda>_. 1))) 0 = 5799"
proof -
  let ?r = "update_named scenario_controller [(''boom'', Num 0.5)] None True (\<lambda>_. 1)"
  have "\<not> isl ?r" by (simp add: pwm_eval_defs)
  then have run: "?r = Inr (projr ?r)" by simp
  have acc: "skip_rate_checking scenario_controller \<or> is_safe_state scenario_controller"
    by (simp add: scenario_controller_fields)
  have ord: "list_all bounds_ordered (channel_configs scenario_controller)"
    by (simp add: scenario_controller_fields bounds_ordered_def scenario_channel_def)
  have log: "channel_writes (logged (projr ?r)) = [(0, 1770, 5799)]"
    by (simp add: pwm_eval_defs)
  have np: "\<not> is_pump_output scenario_controller 0"
    by (simp add: is_pump_output_def scenario_controller_fields demo_pump_def)
  from update_named_emits [OF run acc ord] obtain ws where
    a: "channel_writes (logged (projr ?r)) = channel_writes (logged scenario_controller) @ ws"
    and b: "list_all2 (emitted_ok (pwm_period_us scenario_controller))
           (filter (is_pushed (toggle_channels scenario_controller))
              (channel_configs scenario_controller)) ws"
    and d: "distinct (map fst ws) \<longrightarrow>
             (\<forall>w\<in>set ws. \<not> is_pump_output scenario_controller (fst w) \<longrightarrow>
                duty_cycle (projr ?r) (fst w)
                  = py_int (fst (snd w) / pwm_period_us scenario_controller * 65535))"
    by blast
  from a log have ws: "ws = [(0, 1770, 5799)]"
    by (simp add: scenario_controller_fields)
  from d np have "duty_cycle (projr ?r) 0 = 5799"
    unfolding ws by (simp add: scenario_controller_fields py_int_def)
  with a b acc ord show ?thesis by blast
qed

section \<open>Exceptions of \<open>update_named\<close>\<close>

text \<open>
  C10. \<open>update_named\<close> is not exception-free on command values that do not convert to
  a float. With a pump configuration loaded and the commands accepted, a \<open>pump\<close> command
  whose value does not convert raises \<open>UnboundLocalError\<close> (a \<open>NameError\<close>) for the
  variable \<open>value\<close> instead of logging and skipping; the error branch of the loop over the
  channel commands raises the same error when the first command of a configured channel
  does not convert, since \<open>value\<close> is still unbound then.
\<close>

theorem update_named_unbound_value:
  "(map_of commands ''pump'' = Some (NotNum s) \<and> pump_config st \<noteq> None \<and>
      (skip_rate_checking st \<or> is_safe_state st)
    \<longrightarrow> update_named st commands uz os clock = Inl (UnboundLocalError ''value'')) \<and>
   (map_of cfgs name = Some cfg
    \<longrightarrow> apply_commands cfgs ((name, NotNum s) # rest) None vs lg = Inl (UnboundLocalError ''value''))"
  by (auto simp add: update_named_def pump_override_def Let_def split: option.splits)

theorem update_named_unbound_value_witness:
  "update_named scenario_controller [(''pump'', NotNum ''fast'')] None True (\<lambda>_. 1)
     = Inl (UnboundLocalError ''value'') \<and>
   apply_commands [(''boom'', scenario_channel 1)] [(''boom'', NotNum ''up'')] None
       (cmd_values scenario_controller) []
     = Inl (UnboundLocalError ''value'')"
  using update_named_unbound_value [of "[(''pump'', NotNum ''fast'')]" "''fast''" scenario_controller
      None True "\<lambda>_. 1" "[(''boom'', scenario_channel 1)]" "''boom''" "scenario_channel 1"]
    update_named_unbound_value [of "[]" "''up''" scenario_controller
      None True "\<lambda>_. 1" "[(''boom'', scenario_channel 1)]" "''boom''" "scenario_channel 1" "[]"
      "cmd_values scenario_controller" "[]"]
  by (simp add: scenario_controller_fields)

text \<open>
  Once an earlier command has bound \<open>value\<close>, the same branch logs that stale value and
  goes on.
\<close>

lemma apply_commands_logs_stale_value:
  "map_of cfgs name = Some cfg \<Longrightarrow>
   apply_commands cfgs ((name, NotNum s) # rest) (Some v) vs lg
     = apply_commands cfgs rest (Some v) vs (lg @ [ErrInvalidValue name v])"
  by simp

section \<open>The ramp\<close>







lemmas ramp_eval_defs =
  pulse_from_value_def apply_ramp_def set_ramp_state_def apply_dither_def dither_phase_def
  compute_base_pulse_def apply_gamma_def deadzone_threshold_def Let_def
  single_channel_controller_def ramp_dither_channel_def ramp_channel_def
  new_controller_def PULSE_MAX_def reset_def init_ramp_state_def scenario_channel_def








lemma ramp_witness_values:
  "fst (pulse_from_value (single_channel_controller ramp_channel) ramp_channel 1 1 True) = 1600 \<and>
   fst (pulse_from_value
          (snd (pulse_from_value (single_channel_controller ramp_channel) ramp_channel 1 1 True))
          ramp_channel 1 2 True) = 1700"
  by (simp add: ramp_eval_defs clamp_pulse_def)

section \<open>The rate monitor\<close>

lemma duty_of_pulse_cong:
  "pwm_period_us st' = pwm_period_us st \<Longrightarrow> duty_of_pulse st' p = duty_of_pulse st p"
  by (simp add: duty_of_pulse_def)














section \<open>The datagram session\<close>

subsection \<open>A changed byte changes the checksum\<close>

lemma xor_right_cancel:
  fixes a b c :: "'a::len word"
  assumes "a XOR c = b XOR c"
  shows "a = b"
proof -
  from assms have "(a XOR c) XOR c = (b XOR c) XOR c" by simp
  then show ?thesis by (simp add: xor.assoc)
qed

lemma xor_left_cancel:
  fixes a b c :: "'a::len word"
  assumes "c XOR a = c XOR b"
  shows "a = b"
  using assms xor_right_cancel [of a c b] by (simp add: xor.commute)

lemma crc_shift_inj: "crc_shift x = crc_shift y \<Longrightarrow> x = y"
proof -
  assume eq: "crc_shift x = crc_shift y"
  have top: "\<not> bit (drop_bit 1 z) 15" for z :: "16 word"
    by (auto simp add: bit_drop_bit_eq dest: bit_imp_le_length)
  have ptop: "bit (0x8408 :: 16 word) 15" by simp
  have same: "bit x 0 = bit y 0"
  proof (rule ccontr)
    assume "bit x 0 \<noteq> bit y 0"
    then consider "bit x 0" "\<not> bit y 0" | "\<not> bit x 0" "bit y 0" by blast
    then show False
    proof cases
      case 1
      with eq have "drop_bit 1 x XOR 0x8408 = drop_bit 1 y" by (simp add: crc_shift_def)
      then have "bit (drop_bit 1 x XOR 0x8408) 15 = bit (drop_bit 1 y) 15" by simp
      with top [of x] top [of y] ptop show False by (simp add: bit_xor_iff)
    next
      case 2
      with eq have "drop_bit 1 x = drop_bit 1 y XOR 0x8408" by (simp add: crc_shift_def)
      then have "bit (drop_bit 1 x) 15 = bit (drop_bit 1 y XOR 0x8408) 15" by simp
      with top [of x] top [of y] ptop show False by (simp add: bit_xor_iff)
    qed
  qed
  with eq have d: "drop_bit 1 x = drop_bit 1 y"
    by (auto simp add: crc_shift_def split: if_splits dest: xor_right_cancel)
  show "x = y"
  proof (rule bit_eqI)
    fix n
    show "bit x n = bit y n"
    proof (cases n)
      case 0
      with same show ?thesis by simp
    next
      case (Suc m)
      have "bit (drop_bit 1 x) m = bit (drop_bit 1 y) m" using d by simp
      then show ?thesis using Suc by (simp add: bit_drop_bit_eq)
    qed
  qed
qed

lemma crc_shift_pow_inj: "(crc_shift ^^ n) x = (crc_shift ^^ n) y \<Longrightarrow> x = y"
  by (induction n) (auto dest: crc_shift_inj)

lemma crc_byte_inj_state: "crc_byte c b = crc_byte c' b \<Longrightarrow> c = c'"
  by (auto simp add: crc_byte_def dest!: crc_shift_pow_inj xor_right_cancel)

lemma ucast_byte_inj: "(ucast (a :: byte) :: 16 word) = ucast b \<Longrightarrow> a = b"
proof (rule bit_word_eqI)
  fix n
  assume eq: "(ucast a :: 16 word) = ucast b" and "n < LENGTH(8)"
  then have n: "n < 8" by simp
  have "bit a n = bit (ucast a :: 16 word) n" using n by (simp add: bit_ucast_iff)
  also have "\<dots> = bit (ucast b :: 16 word) n" by (simp only: eq)
  also have "\<dots> = bit b n" using n by (simp add: bit_ucast_iff)
  finally show "bit a n = bit b n" .
qed

lemma crc_byte_inj_byte: "crc_byte c a = crc_byte c b \<Longrightarrow> a = b"
  by (auto simp add: crc_byte_def dest!: crc_shift_pow_inj xor_left_cancel ucast_byte_inj)

lemma foldl_crc_inj_state: "foldl crc_byte c xs = foldl crc_byte c' xs \<Longrightarrow> c = c'"
  by (induction xs arbitrary: c c') (auto dest: crc_byte_inj_state)

lemma foldl_crc_changed_byte:
  assumes "k < length xs" and "b \<noteq> xs ! k"
  shows "foldl crc_byte c (xs[k := b]) \<noteq> foldl crc_byte c xs"
  using assms
proof (induction xs arbitrary: c k)
  case Nil
  then show ?case by simp
next
  case (Cons x xs)
  show ?case
  proof (cases k)
    case 0
    with Cons.prems have "b \<noteq> x" by simp
    then have "crc_byte c b \<noteq> crc_byte c x" by (auto dest: crc_byte_inj_byte)
    then show ?thesis using 0 by (auto dest: foldl_crc_inj_state)
  next
    case (Suc j)
    with Cons.prems have "j < length xs" "b \<noteq> xs ! j" by simp_all
    from Cons.IH [OF this] show ?thesis using Suc by simp
  qed
qed

lemma crc16_changed_byte:
  "k < length xs \<Longrightarrow> b \<noteq> xs ! k \<Longrightarrow> crc16 (xs[k := b]) \<noteq> crc16 xs"
  by (simp add: crc16_def foldl_crc_changed_byte)

lemma flip_bit_changes: "j < 8 \<Longrightarrow> flip_bit j (b :: byte) \<noteq> b"
proof
  assume j: "j < 8" and eq: "flip_bit j b = b"
  then have "bit (flip_bit j b) j = bit b j" by simp
  with j show False by (simp add: bit_flip_bit_iff)
qed

subsection \<open>Packing and unpacking\<close>

lemma length_le_bytes [simp]: "length (le_bytes n v) = n"
  by (induction n arbitrary: v) simp_all

lemma le_int_le_bytes: "le_int (le_bytes n v) = v mod 256 ^ n"
proof (induction n arbitrary: v)
  case 0
  then show ?case by simp
next
  case (Suc n)
  have "uint (word_of_int v :: byte) = v mod 256" by (simp add: uint_word_of_int)
  then have "le_int (le_bytes (Suc n) v) = v mod 256 + 256 * ((v div 256) mod 256 ^ n)"
    by (simp add: Suc.IH)
  also have "\<dots> = v mod (256 * 256 ^ n)"
    using zmod_zmult2_eq [of "256 ^ n" v 256] by simp
  finally show ?case by simp
qed

lemma calcsize_pos: "0 < calcsize t"
  by (cases t) simp_all

lemma unpack_pack_int:
  assumes "in_range t v"
  shows "unpack_int t (le_bytes (calcsize t) v) = v"
proof -
  have p: "(256::int) ^ calcsize t = 2 ^ (8 * calcsize t)"
    by (simp add: power_mult)
  have h: "(2::int) ^ (8 * calcsize t) = 2 * 2 ^ (8 * calcsize t - 1)"
    using calcsize_pos [of t] by (cases "8 * calcsize t") simp_all
  show ?thesis
  proof (cases "is_signed t")
    case False
    with assms have "0 \<le> v" "v < 2 ^ (8 * calcsize t)" by (simp_all add: in_range_def)
    then show ?thesis using False by (simp add: unpack_int_def le_int_le_bytes p)
  next
    case True
    with assms have r: "- (2 ^ (8 * calcsize t - 1)) \<le> v" "v < 2 ^ (8 * calcsize t - 1)"
      by (simp_all add: in_range_def)
    show ?thesis
    proof (cases "0 \<le> v")
      case nonneg: True
      with r h have "v mod 2 ^ (8 * calcsize t) = v" by simp
      with r True show ?thesis by (simp add: unpack_int_def le_int_le_bytes p)
    next
      case False
      define K :: int where "K = 2 ^ (8 * calcsize t - 1)"
      have K: "2 ^ (8 * calcsize t) = 2 * K" using h by (simp add: K_def)
      from r False have b: "- K \<le> v" "v < 0" by (simp_all add: K_def)
      have "v mod (2 * K) = (v + 2 * K) mod (2 * K)" by simp
      also have "\<dots> = v + 2 * K" by (rule mod_pos_pos_trivial) (use b in linarith)+
      finally have m: "v mod (2 * K) = v + 2 * K" .
      have "le_int (le_bytes (calcsize t) v) = v + 2 * K"
        by (simp add: le_int_le_bytes p K m)
      moreover have "2 ^ (8 * calcsize t - 1) \<le> v + 2 * K" using b by (simp add: K_def)
      ultimately show ?thesis using True
        by (simp add: unpack_int_def Let_def K)
    qed
  qed
qed

text \<open>The conversions between binary64 and binary32.\<close>

lemma round_shift_le: "round_shift m sh \<le> m div 2 ^ sh + 1"
  by (simp add: round_shift_def Let_def)

lemma f32_of_f64_cases:
  obtains (special) p where "f32_of_f64 u = Some ((u div 2 ^ 63) mod 2 * 2 ^ 31 + 255 * 2 ^ 23 + p)"
      "p < 2 ^ 23"
    | (overflow) "f32_of_f64 u = None"
    | (finite) r where "f32_of_f64 u = Some ((u div 2 ^ 63) mod 2 * 2 ^ 31 + r)" "r < 255 * 2 ^ 23"
proof (cases "(u div 2 ^ 52) mod 2048 = 2047")
  case True
  define p :: nat where
    "p = (if u mod 2 ^ 52 = 0 then 0 else 2 ^ 22 + (u mod 2 ^ 52 div 2 ^ 29) mod 2 ^ 22)"
  have "(u mod 2 ^ 52 div 2 ^ 29) mod 2 ^ 22 < (2::nat) ^ 22"
    by (rule mod_less_divisor) simp
  then have "p < 2 ^ 22 + 2 ^ 22" unfolding p_def by (simp only: split: if_splits) auto
  then have "p < 2 ^ 23" by simp
  moreover have "f32_of_f64 u = Some ((u div 2 ^ 63) mod 2 * 2 ^ 31 + 255 * 2 ^ 23 + p)"
    unfolding f32_of_f64_def Let_def p_def by (simp only: True simp_thms if_True)
  ultimately show ?thesis by (rule special [rotated])
next
  case False
  define r where "r = (max ((u div 2 ^ 52) mod 2048) 1 - 897) * 2 ^ 23
      + round_shift (if (u div 2 ^ 52) mod 2048 = 0 then u mod 2 ^ 52 else 2 ^ 52 + u mod 2 ^ 52)
          (29 + (897 - max ((u div 2 ^ 52) mod 2048) 1))"
  have eq: "f32_of_f64 u =
      (if 255 * 2 ^ 23 \<le> r then None else Some ((u div 2 ^ 63) mod 2 * 2 ^ 31 + r))"
    unfolding f32_of_f64_def Let_def r_def by (simp only: False if_False)
  show ?thesis
  proof (cases "255 * 2 ^ 23 \<le> r")
    case True
    with eq have "f32_of_f64 u = None" by (simp only: if_True)
    then show ?thesis by (rule overflow)
  next
    case False
    with eq have "f32_of_f64 u = Some ((u div 2 ^ 63) mod 2 * 2 ^ 31 + r)" by (simp only: if_False)
    moreover from False have "r < 255 * 2 ^ 23" by (simp only: not_le)
    ultimately show ?thesis by (rule finite)
  qed
qed

lemma f32_of_f64_bound:
  assumes "f32_of_f64 u = Some r"
  shows "r < 2 ^ 32"
proof -
  have s: "(u div 2 ^ 63) mod 2 * 2 ^ 31 \<le> (2::nat) ^ 31"
  proof -
    have "(u div 2 ^ 63) mod 2 \<le> 1" by simp
    then have "(u div 2 ^ 63) mod 2 * 2 ^ 31 \<le> 1 * (2::nat) ^ 31" by (rule mult_le_mono1)
    then show ?thesis by (simp only: mult_1)
  qed
  show ?thesis
  proof (cases u rule: f32_of_f64_cases)
    case (special p)
    with assms have r: "r = (u div 2 ^ 63) mod 2 * 2 ^ 31 + 255 * 2 ^ 23 + p" by simp
    from s special(2) show ?thesis unfolding r by simp
  next
    case overflow
    with assms show ?thesis by simp
  next
    case (finite r')
    with assms have r: "r = (u div 2 ^ 63) mod 2 * 2 ^ 31 + r'" by simp
    from s finite(2) show ?thesis unfolding r by simp
  qed
qed

lemma f32_of_f64_fits:
  assumes "(u div 2 ^ 52) mod 2048 < 1150"
  shows "\<exists>r. f32_of_f64 u = Some r"
proof -
  define e where "e = (u div 2 ^ 52) mod 2048"
  define ex where "ex = max e 1"
  define mant where "mant = (if e = 0 then u mod 2 ^ 52 else 2 ^ 52 + u mod 2 ^ 52)"
  define r where "r = (ex - 897) * 2 ^ 23 + round_shift mant (29 + (897 - ex))"
  have e: "e < 1150" using assms by (simp only: e_def)
  then have ne: "e \<noteq> 2047" by simp
  have "u mod 2 ^ 52 < (2::nat) ^ 52" by (rule mod_less_divisor) simp
  then have mant: "mant < 2 ^ 53" unfolding mant_def by (simp only: split: if_splits) auto
  have "(2::nat) ^ 29 \<le> 2 ^ (29 + (897 - ex))" by (rule power_increasing) simp_all
  then have "mant div 2 ^ (29 + (897 - ex)) \<le> mant div 2 ^ 29"
    by (intro div_le_mono2) simp_all
  also have "mant div 2 ^ 29 < 2 ^ 24"
    using mant by (simp add: less_mult_imp_div_less)
  finally have "round_shift mant (29 + (897 - ex)) \<le> 2 ^ 24"
    using round_shift_le [of mant "29 + (897 - ex)"] by simp
  moreover have "ex - 897 \<le> 252" using e by (simp add: ex_def)
  then have "(ex - 897) * 2 ^ 23 \<le> 252 * (2::nat) ^ 23" by (rule mult_le_mono1)
  ultimately have small: "\<not> 255 * 2 ^ 23 \<le> r" unfolding r_def by simp
  have "f32_of_f64 u =
      (if e = 2047 then Some ((u div 2 ^ 63) mod 2 * 2 ^ 31 + 255 * 2 ^ 23
             + (if u mod 2 ^ 52 = 0 then 0 else 2 ^ 22 + (u mod 2 ^ 52 div 2 ^ 29) mod 2 ^ 22))
       else if 255 * 2 ^ 23 \<le> r then None else Some ((u div 2 ^ 63) mod 2 * 2 ^ 31 + r))"
    unfolding f32_of_f64_def Let_def r_def mant_def ex_def e_def ..
  then have "f32_of_f64 u = Some ((u div 2 ^ 63) mod 2 * 2 ^ 31 + r)"
    by (simp only: ne small if_False)
  then show ?thesis ..
qed

lemma f32_of_f64_special:
  "(u div 2 ^ 52) mod 2048 = 2047 \<Longrightarrow> \<exists>r. f32_of_f64 u = Some r"
  unfolding f32_of_f64_def Let_def by (simp only: simp_thms if_True) blast

text \<open>
  A double that binary32 represents comes back unchanged: \<open>fields\<close> reads sign, exponent
  and fraction off an encoding that is given by its parts.
\<close>

lemma fields:
  fixes hi mid lo A B :: nat
  assumes "lo < B" "mid < A"
  shows "((hi * A + mid) * B + lo) div B mod A = mid"
    and "((hi * A + mid) * B + lo) mod B = lo"
    and "((hi * A + mid) * B + lo) div (B * A) = hi"
proof -
  have d: "((hi * A + mid) * B + lo) div B = hi * A + mid" using assms(1) by simp
  show "((hi * A + mid) * B + lo) div B mod A = mid" using assms(2) by (simp add: d)
  show "((hi * A + mid) * B + lo) mod B = lo" using assms(1) by simp
  show "((hi * A + mid) * B + lo) div (B * A) = hi"
    using assms(2) by (simp add: div_mult2_eq d)
qed

lemma round_shift_exact: "round_shift (q * 2 ^ sh) sh = q"
  by (simp add: round_shift_def Let_def)

lemma f32_of_f64_normal:
  fixes s e m :: nat
  assumes "s \<le> 1" "897 \<le> e" "e \<le> 1150" "m < 2 ^ 23"
  shows "f32_of_f64 ((s * 2048 + e) * 2 ^ 52 + m * 2 ^ 29)
           = Some ((s * 256 + (e - 896)) * 2 ^ 23 + m)"
proof -
  let ?u = "(s * 2048 + e) * 2 ^ 52 + m * 2 ^ 29"
  have lo: "m * 2 ^ 29 < (2::nat) ^ 52"
  proof -
    have "m * 2 ^ 29 < 2 ^ 23 * (2::nat) ^ 29" using assms(4) by (rule mult_strict_right_mono) simp
    then show ?thesis by (simp only: power_add [symmetric]) simp
  qed
  have mid: "e < 2048" using assms(3) by simp
  have pw: "(2::nat) ^ 52 * 2048 = 2 ^ 63" by simp
  have fe: "?u div 2 ^ 52 mod 2048 = e" by (rule fields(1) [OF lo mid])
  have fm: "?u mod 2 ^ 52 = m * 2 ^ 29" by (rule fields(2) [OF lo mid])
  have fs: "?u div 2 ^ 63 = s" using fields(3) [OF lo mid, of s] by (simp only: pw)
  have s2: "s mod 2 = s" using assms(1) by simp
  have ne: "e \<noteq> 2047" "e \<noteq> 0" "max e 1 = e" using assms(2,3) by simp_all
  have sh: "29 + (897 - e) = 29" using assms(2) by simp
  have mant: "2 ^ 52 + m * 2 ^ 29 = (2 ^ 23 + m) * (2::nat) ^ 29"
    by (simp add: algebra_simps flip: power_add)
  have rs: "round_shift (2 ^ 52 + m * 2 ^ 29) 29 = 2 ^ 23 + m"
    by (simp only: mant round_shift_exact)
  define r where "r = (e - 897) * 2 ^ 23 + (2 ^ 23 + m)"
  have r: "r = (e - 896) * 2 ^ 23 + m"
  proof -
    have "e - 896 = Suc (e - 897)" using assms(2) by simp
    then show ?thesis by (simp add: r_def)
  qed
  have small: "\<not> 255 * 2 ^ 23 \<le> r"
  proof -
    have "e - 896 \<le> 254" using assms(3) by simp
    then have "(e - 896) * 2 ^ 23 \<le> 254 * (2::nat) ^ 23" by (rule mult_le_mono1)
    with assms(4) show ?thesis unfolding r by simp
  qed
  have "f32_of_f64 ?u = (if 255 * 2 ^ 23 \<le> r then None else Some (s * 2 ^ 31 + r))"
    unfolding f32_of_f64_def Let_def
    by (simp only: fe fm fs s2 ne sh rs r_def if_False)
  then have "f32_of_f64 ?u = Some (s * 2 ^ 31 + r)" by (simp only: small if_False)
  moreover have "s * 2 ^ 31 + r = (s * 256 + (e - 896)) * 2 ^ 23 + m"
    unfolding r by (simp add: algebra_simps)
  ultimately show ?thesis by simp
qed

lemma f64_of_f32_normal:
  fixes s e m :: nat
  assumes "s \<le> 1" "0 < e" "e < 255" "m < 2 ^ 23"
  shows "f64_of_f32 ((s * 256 + e) * 2 ^ 23 + m) = (s * 2048 + (e + 896)) * 2 ^ 52 + m * 2 ^ 29"
proof -
  let ?u = "(s * 256 + e) * 2 ^ 23 + m"
  have mid: "e < 256" using assms(3) by simp
  have pw: "(2::nat) ^ 23 * 256 = 2 ^ 31" by simp
  have fe: "?u div 2 ^ 23 mod 256 = e" by (rule fields(1) [OF assms(4) mid])
  have fm: "?u mod 2 ^ 23 = m" by (rule fields(2) [OF assms(4) mid])
  have fs: "?u div 2 ^ 31 = s" using fields(3) [OF assms(4) mid, of s] by (simp only: pw)
  have s2: "s mod 2 = s" using assms(1) by simp
  have ne: "e \<noteq> 255" "e \<noteq> 0" using assms(2,3) by simp_all
  have "f64_of_f32 ?u = s * 2 ^ 63 + (e + 896) * 2 ^ 52 + m * 2 ^ 29"
    unfolding f64_of_f32_def Let_def by (simp only: fe fm fs s2 ne if_False)
  then show ?thesis by (simp add: algebra_simps)
qed

lemma f32_roundtrip_normal:
  fixes u :: nat
  assumes u: "u < 2 ^ 64" and lo: "897 \<le> (u div 2 ^ 52) mod 2048"
    and hi: "(u div 2 ^ 52) mod 2048 \<le> 1150" and z: "u mod 2 ^ 29 = 0"
  shows "f64_of_f32 (the (f32_of_f64 u)) = u"
proof -
  define s where "s = u div 2 ^ 63"
  define e where "e = (u div 2 ^ 52) mod 2048"
  define m where "m = (u mod 2 ^ 52) div 2 ^ 29"
  have s: "s \<le> 1"
  proof -
    have "u < 2 * (2::nat) ^ 63" using u by simp
    then have "u div 2 ^ 63 < 2" by (simp add: less_mult_imp_div_less)
    then show ?thesis by (simp add: s_def)
  qed
  have m: "m < 2 ^ 23"
  proof -
    have "u mod 2 ^ 52 < (2::nat) ^ 52" by (rule mod_less_divisor) simp
    then have "u mod 2 ^ 52 < 2 ^ 23 * (2::nat) ^ 29" by simp
    then show ?thesis unfolding m_def by (simp add: less_mult_imp_div_less)
  qed
  have "(u mod 2 ^ 52) mod 2 ^ 29 = u mod 2 ^ 29"
    by (rule mod_mod_cancel) (simp add: le_imp_power_dvd)
  then have "(u mod 2 ^ 52) mod 2 ^ 29 = 0" by (simp only: z)
  then have ml: "u mod 2 ^ 52 = m * 2 ^ 29" unfolding m_def by (simp add: mod_eq_0_iff_dvd)
  have "u div 2 ^ 52 div 2048 = u div (2 ^ 52 * 2048)" by (simp only: div_mult2_eq)
  then have "u div 2 ^ 52 div 2048 = s" by (simp add: s_def)
  then have "u div 2 ^ 52 = s * 2048 + e"
    unfolding e_def using div_mult_mod_eq [of "u div 2 ^ 52" 2048] by simp
  then have dec: "u = (s * 2048 + e) * 2 ^ 52 + m * 2 ^ 29"
    using div_mult_mod_eq [of u "2 ^ 52"] by (simp only: ml)
  have e: "897 \<le> e" "e \<le> 1150" using lo hi by (simp_all only: e_def)
  have "f32_of_f64 u = Some ((s * 256 + (e - 896)) * 2 ^ 23 + m)"
    unfolding dec by (rule f32_of_f64_normal [OF s e m])
  moreover have "f64_of_f32 ((s * 256 + (e - 896)) * 2 ^ 23 + m)
      = (s * 2048 + (e - 896 + 896)) * 2 ^ 52 + m * 2 ^ 29"
    by (rule f64_of_f32_normal [OF s _ _ m]) (use e in simp_all)
  moreover have "e - 896 + 896 = e" using e by simp
  ultimately show ?thesis using dec by simp
qed

lemma f32_roundtrip_zero:
  fixes u :: nat
  assumes u: "u < 2 ^ 64" and z: "u mod 2 ^ 63 = 0"
  shows "f64_of_f32 (the (f32_of_f64 u)) = u"
proof -
  from u have "u < 2 * (2::nat) ^ 63" by simp
  then have "u div 2 ^ 63 < 2" by (simp add: less_mult_imp_div_less)
  moreover have "u = u div 2 ^ 63 * 2 ^ 63"
  proof -
    have "u div 2 ^ 63 * 2 ^ 63 + u mod 2 ^ 63 = u" by (rule div_mult_mod_eq)
    then show ?thesis by (simp only: z add_0_right)
  qed
  ultimately consider "u = 0" | "u = 2 ^ 63"
    by (cases "u div 2 ^ 63 = 0") (auto simp add: less_2_cases_iff)
  then show ?thesis
  proof cases
    case 1
    then show ?thesis by (simp add: f32_of_f64_def f64_of_f32_def round_shift_def)
  next
    case 2
    then show ?thesis by (simp add: f32_of_f64_def f64_of_f32_def round_shift_def)
  qed
qed

lemma of_nat_mod_64: "(of_nat (u mod 2 ^ 64) :: 64 word) = of_nat u"
  by (simp add: word_of_nat_eq_iff take_bit_eq_mod)

lemma length_pack_value: "pack_value t v = Inr b \<Longrightarrow> length b = calcsize t"
  by (cases t; cases v)
     (auto simp add: pack_value_def split: if_splits sum.splits option.splits)

lemma unpack_pack_value:
  assumes "pack_value t v = Inr b"
  shows "unpack_value t b = stored_as t v"
proof -
  consider "t = T_d" | "t = T_f" | "\<not> is_float t" by (cases t) auto
  then show ?thesis
  proof cases
    case 1
    with assms obtain u where u: "as_double v = Inr u" and b: "b = le_bytes 8 (int u)"
      by (auto simp add: pack_value_def split: sum.splits)
    have "nat (le_int b) = u mod 2 ^ 64"
      by (simp add: b le_int_le_bytes nat_mod_distrib nat_power_eq)
    then show ?thesis using 1 u of_nat_mod_64 [of u]
      by (simp add: unpack_value_def stored_as_def)
  next
    case 2
    with assms obtain u r where u: "as_double v = Inr u" and r: "f32_of_f64 u = Some r"
      and b: "b = le_bytes 4 (int r)"
      by (auto simp add: pack_value_def split: sum.splits option.splits)
    from f32_of_f64_bound [OF r] have "int r mod 256 ^ 4 = int r" by simp
    then have "nat (le_int b) = r" by (simp add: b le_int_le_bytes)
    then show ?thesis using 2 u r by (simp add: unpack_value_def stored_as_def)
  next
    case 3
    with assms obtain i where v: "v = PyInt i" and i: "in_range t i"
      and b: "b = le_bytes (calcsize t) i"
      by (auto simp add: pack_value_def split: py_value.splits if_splits)
    from 3 have "t \<noteq> T_d" "t \<noteq> T_f" by auto
    then show ?thesis
      by (simp add: unpack_value_def stored_as_def v b unpack_pack_int [OF i])
  qed
qed

text \<open>An integer of a magnitude below \<open>2^53\<close> converts to a double, without rounding.\<close>

lemma bit_len_le: "a < 2 ^ k \<Longrightarrow> bit_len a \<le> k"
proof (induction k arbitrary: a)
  case 0
  then show ?case by (simp add: bit_len.simps)
next
  case (Suc k)
  show ?case
  proof (cases "a = 0")
    case True
    then show ?thesis by (simp add: bit_len.simps)
  next
    case False
    from Suc.prems have "a div 2 < 2 ^ k" by simp
    from Suc.IH [OF this] False show ?thesis by (subst bit_len.simps) simp
  qed
qed

lemma bit_len_gt: "a < 2 ^ bit_len a"
proof (induction a rule: bit_len.induct)
  case (1 n)
  show ?case
  proof (cases "n = 0")
    case True
    then show ?thesis by (simp add: bit_len.simps)
  next
    case False
    from 1 [OF False] have "n div 2 < 2 ^ bit_len (n div 2)" .
    then have "n < 2 * 2 ^ bit_len (n div 2)" by linarith
    then show ?thesis using False by (subst bit_len.simps) simp
  qed
qed

lemma double_of_int_small:
  assumes "\<bar>i\<bar> < 2 ^ 53"
  shows "\<exists>u. double_of_int i = Some u \<and> (u div 2 ^ 52) mod 2048 < 1150"
proof (cases "nat \<bar>i\<bar> = 0")
  case True
  then show ?thesis by (simp add: double_of_int_def Let_def)
next
  case False
  define a where "a = nat \<bar>i\<bar>"
  define n where "n = bit_len a"
  define x where "x = a * 2 ^ (53 - n)"
  define s :: nat where "s = (if i < 0 then 1 else 0)"
  have a: "a < 2 ^ 53" using assms by (simp add: a_def nat_less_iff)
  have n: "n \<le> 53" unfolding n_def by (rule bit_len_le [OF a])
  have "a * 2 ^ (53 - n) < 2 ^ n * 2 ^ (53 - n)"
    using bit_len_gt [of a] unfolding n_def by (rule mult_strict_right_mono) simp
  also have "\<dots> = 2 ^ 53" using n by (simp flip: power_add)
  finally have x: "x < 2 ^ 53" by (simp only: x_def)
  have rs: "round_shift x (n - 53) = x" using n by (simp add: round_shift_def)
  define r where "r = (n + 1021) * 2 ^ 52 + x"
  have "(n + 1021) * 2 ^ 52 \<le> 1074 * (2::nat) ^ 52" using n by simp
  with x have r: "r < 1076 * 2 ^ 52" unfolding r_def by simp
  then have small: "\<not> 2047 * 2 ^ 52 \<le> r" by simp
  have eq: "double_of_int i = Some (s * 2 ^ 63 + r)"
    unfolding double_of_int_def Let_def a_def [symmetric] n_def [symmetric]
      x_def [symmetric] rs r_def [symmetric]
    using False small by (simp add: a_def s_def)
  have "r div 2 ^ 52 < 1076" using r by (simp add: less_mult_imp_div_less)
  moreover have "(s * 2 ^ 63 + r) div 2 ^ 52 = s * 2048 + r div 2 ^ 52"
  proof -
    have "s * 2 ^ 63 + r = r + (s * 2048) * 2 ^ 52" by simp
    then show ?thesis by (simp only: div_mult_self3) simp
  qed
  ultimately have "((s * 2 ^ 63 + r) div 2 ^ 52) mod 2048 < 1150" by simp
  with eq show ?thesis by blast
qed

lemma sendable_packs: "sendable t v \<Longrightarrow> \<exists>b. pack_value t v = Inr b"
proof (cases v)
  case (PyInt i)
  assume sv: "sendable t v"
  consider "t = T_d" | "t = T_f" | "\<not> is_float t" by (cases t) auto
  then show ?thesis
  proof cases
    case 1
    with sv PyInt have "\<bar>i\<bar> < 2 ^ 53" by simp
    from double_of_int_small [OF this] obtain u where "double_of_int i = Some u" by blast
    with 1 show ?thesis by (simp add: pack_value_def PyInt)
  next
    case 2
    with sv PyInt have "\<bar>i\<bar> < 2 ^ 53" by simp
    from double_of_int_small [OF this] obtain u where u: "double_of_int i = Some u"
      and "(u div 2 ^ 52) mod 2048 < 1150" by blast
    from f32_of_f64_fits [OF this(2)] obtain r where "f32_of_f64 u = Some r" ..
    with 2 u show ?thesis by (simp add: pack_value_def PyInt)
  next
    case 3
    with sv PyInt show ?thesis by (simp add: pack_value_def)
  qed
next
  case (PyFloat w)
  assume "sendable t v"
  with PyFloat consider "t = T_d" | "t = T_f" "f64_exponent w < 1150"
    | "t = T_f" "f64_exponent w = 2047" by auto
  then show ?thesis
  proof cases
    case 1
    then show ?thesis by (simp add: pack_value_def PyFloat)
  next
    case 2
    from f32_of_f64_fits [of "unat w"] 2 obtain r where "f32_of_f64 (unat w) = Some r"
      by (auto simp add: f64_exponent_def)
    with 2 show ?thesis by (simp add: pack_value_def PyFloat)
  next
    case 3
    from f32_of_f64_special [of "unat w"] 3 obtain r where "f32_of_f64 (unat w) = Some r"
      by (auto simp add: f64_exponent_def)
    with 3 show ?thesis by (simp add: pack_value_def PyFloat)
  qed
qed

lemma sendable_pack_values:
  "list_all (sendable t) vs \<Longrightarrow> \<exists>bs. pack_values t vs = Inr bs"
proof (induction vs)
  case Nil
  then show ?case by simp
next
  case (Cons v vs)
  then obtain b bs where "pack_value t v = Inr b" "pack_values t vs = Inr bs"
    using sendable_packs [of t v] by auto
  then show ?case by simp
qed

lemma length_pack_values:
  "pack_values t vs = Inr bs \<Longrightarrow> length bs = length vs * calcsize t"
  by (induction vs arbitrary: bs) (auto split: sum.splits dest: length_pack_value)

lemma unpack_chunks_pack_values:
  "pack_values t vs = Inr bs \<Longrightarrow> unpack_chunks t (length vs) bs = map (stored_as t) vs"
  by (induction vs arbitrary: bs)
     (auto split: sum.splits simp add: unpack_pack_value length_pack_value)

lemma unpack_pack_values:
  "pack_values t vs = Inr bs \<Longrightarrow>
     unpack_values t (length vs) bs = Some (map (stored_as t) vs)"
  by (simp add: unpack_values_def length_pack_values unpack_chunks_pack_values)

lemma stored_as_int: "\<not> is_float t \<Longrightarrow> stored_as t v = v"
  by (cases t) (simp_all add: stored_as_def)

lemma stored_as_double: "stored_as T_d (PyFloat w) = PyFloat w"
  by (simp add: stored_as_def)

lemma stored_as_f32_exact:
  assumes "f32_exact w"
  shows "stored_as T_f (PyFloat w) = PyFloat w"
proof -
  have u: "unat w < 2 ^ 64" using unsigned_less [of w] by simp
  from assms consider "unat w mod 2 ^ 63 = 0"
    | "897 \<le> (unat w div 2 ^ 52) mod 2048" "(unat w div 2 ^ 52) mod 2048 \<le> 1150"
      "unat w mod 2 ^ 29 = 0"
    unfolding f32_exact_def f64_exponent_def by auto
  then have "f64_of_f32 (the (f32_of_f64 (unat w))) = unat w"
  proof cases
    case 1
    then show ?thesis by (rule f32_roundtrip_zero [OF u])
  next
    case 2
    then show ?thesis by (rule f32_roundtrip_normal [OF u])
  qed
  then show ?thesis by (simp add: stored_as_def)
qed

subsection \<open>Frames through the receive loop\<close>

lemma learn_addr_keeps [simp]:
  "num_inputs (learn_addr st a) = num_inputs st"
  "receive_type (learn_addr st a) = receive_type st"
  "latest_data (learn_addr st a) = latest_data st"
  "latest_timestamp (learn_addr st a) = latest_timestamp st"
  "packets_received (learn_addr st a) = packets_received st"
  "packets_corrupted (learn_addr st a) = packets_corrupted st"
  "packets_expired (learn_addr st a) = packets_expired st"
  "running (learn_addr st a) = running st"
  "max_age_seconds (learn_addr st a) = max_age_seconds st"
  by (simp_all add: learn_addr_def)

lemma track_delay_keeps [simp]:
  "latest_data (track_delay st t) = latest_data st"
  "packets_received (track_delay st t) = packets_received st"
  "packets_corrupted (track_delay st t) = packets_corrupted st"
  "packets_expired (track_delay st t) = packets_expired st"
  "running (track_delay st t) = running st"
  "max_age_seconds (track_delay st t) = max_age_seconds st"
  by (simp_all add: track_delay_def Let_def)

lemma le_int_crc: "le_int (le_bytes 2 (uint (c :: 16 word))) = uint c"
proof -
  have "uint c < 2 ^ 16" using uint_bounded [of c] by simp
  then have "uint c mod 256 ^ 2 = uint c" by simp
  then show ?thesis by (simp only: le_int_le_bytes)
qed

lemma send_sendable:
  assumes "remote_addr st \<noteq> None" and "length vs = num_outputs st"
    and "list_all (sendable (send_type st)) vs"
  shows "\<exists>payload. pack_values (send_type st) vs = Inr payload \<and>
           send st vs = Inr (True, Some (payload @ le_bytes 2 (uint (crc16 payload))),
                             st\<lparr>packets_sent := packets_sent st + 1\<rparr>)"
proof -
  from sendable_pack_values [OF assms(3)] obtain payload where
    "pack_values (send_type st) vs = Inr payload" ..
  with assms(1,2) show ?thesis by (simp add: send_def Let_def)
qed

lemma receive_sent_frame:
  assumes sent: "send st vs = Inr (True, Some frame, st')"
    and rt: "receive_type r = Some (send_type st)"
    and shape: "num_inputs r = num_outputs st"
  shows "\<exists>r'. receive_step r frame a t = Inr (Continue, r') \<and>
           latest_data r' = Some (map (stored_as (send_type st)) vs) \<and>
           latest_timestamp r' = t \<and> packets_received r' = packets_received r + 1 \<and>
           packets_corrupted r' = packets_corrupted r"
proof -
  from sent obtain payload where
    len: "length vs = num_outputs st"
    and pk: "pack_values (send_type st) vs = Inr payload"
    and fr: "frame = payload @ le_bytes 2 (uint (crc16 payload))"
    by (auto simp add: send_def Let_def split: if_splits sum.splits)
  have lp: "length payload = num_outputs st * calcsize (send_type st)"
    using length_pack_values [OF pk] len by simp
  have l: "length frame = calcsize (send_type st) * num_inputs r + 2"
    using lp shape by (simp add: fr mult.commute)
  have ne: "frame \<noteq> []" using l by auto
  have tk: "take (length frame - 2) frame = payload" by (simp add: fr)
  have dr: "drop (length frame - 2) frame = le_bytes 2 (uint (crc16 payload))" by (simp add: fr)
  have un: "unpack_values (send_type st) (num_inputs r) payload
              = Some (map (stored_as (send_type st)) vs)"
    using unpack_pack_values [OF pk] len shape by simp
  have n: "length frame - 2 = calcsize (send_type st) * num_inputs r" using l by simp
  show ?thesis
    using rt l ne un tk [unfolded n] dr [unfolded n]
    by (simp add: receive_step_def Let_def validate_crc_def le_int_crc)
qed

lemma receive_flipped_frame:
  assumes rt: "receive_type r = Some rt"
    and size: "length frame = calcsize rt * num_inputs r + 2"
    and crc: "validate_crc (take (length frame - 2) frame) (le_int (drop (length frame - 2) frame))"
    and k: "k < length frame - 2" and j: "j < 8"
  shows "receive_step r (frame[k := flip_bit j (frame ! k)]) a t
           = Inr (Continue, (learn_addr r a)\<lparr>packets_corrupted := packets_corrupted r + 1\<rparr>)"
proof -
  let ?f = "frame[k := flip_bit j (frame ! k)]"
  let ?p = "take (length frame - 2) frame"
  have ne: "?f \<noteq> []" using k by auto
  have tk: "take (length ?f - 2) ?f = ?p[k := flip_bit j (?p ! k)]"
    using k by (simp add: take_update_swap)
  have dr: "drop (length ?f - 2) ?f = drop (length frame - 2) frame"
    using k by simp
  have "crc16 (?p[k := flip_bit j (?p ! k)]) \<noteq> crc16 ?p"
    by (rule crc16_changed_byte) (use k j in \<open>simp_all add: flip_bit_changes\<close>)
  then have bad: "\<not> validate_crc (?p[k := flip_bit j (?p ! k)]) (le_int (drop (length frame - 2) frame))"
    using crc by (metis validate_crc_def word_uint_eqI)
  have n: "length frame - 2 = calcsize rt * num_inputs r" using size by simp
  show ?thesis
    using rt size ne bad [unfolded n] tk [unfolded n] dr [unfolded n]
    by (simp add: receive_step_def Let_def)
qed

text \<open>Evaluation of the checksum and of the packing on the concrete frame.\<close>

lemma crc_byte_unfold:
  "crc_byte c b =
     crc_shift (crc_shift (crc_shift (crc_shift (crc_shift (crc_shift (crc_shift (crc_shift
       (c XOR ucast b))))))))"
proof -
  have "(8::nat) = Suc (Suc (Suc (Suc (Suc (Suc (Suc (Suc 0)))))))" by simp
  then show ?thesis by (simp only: crc_byte_def funpow.simps o_apply id_apply)
qed

lemma le_bytes_2: "le_bytes 2 v = [word_of_int v, word_of_int (v div 256)]"
proof -
  have "(2::nat) = Suc (Suc 0)" by simp
  then show ?thesis by (simp only: le_bytes.simps)
qed

lemma le_bytes_4:
  "le_bytes 4 v = [word_of_int v, word_of_int (v div 256), word_of_int (v div 256 div 256),
                   word_of_int (v div 256 div 256 div 256)]"
proof -
  have "(4::nat) = Suc (Suc (Suc (Suc 0)))" by simp
  then show ?thesis by (simp only: le_bytes.simps)
qed

lemma demo_payload_crc: "crc16 [0, 0, 128, 63, 0, 0, 0, 63, 0, 0, 0, 0] = 7551"
  by (simp add: crc16_def crc_byte_unfold crc_shift_def)

lemma demo_f32:
  "f32_of_f64 0x3FF0000000000000 = Some 0x3F800000"
  "f32_of_f64 0x3FE0000000000000 = Some 0x3F000000"
  "f32_of_f64 0 = Some 0"
  "f32_of_f64 0x3FB999999999999A = Some 0x3DCCCCCD"
  by (simp_all add: f32_of_f64_def round_shift_def Let_def)

lemma demo_pack:
  "pack_values T_f demo_values = Inr [0, 0, 128, 63, 0, 0, 0, 63, 0, 0, 0, 0]"
  by (simp add: demo_values_def pack_value_def demo_f32 le_bytes_4)

lemma demo_send:
  "send demo_sender demo_values = Inr (True, Some demo_frame, demo_sender\<lparr>packets_sent := 1\<rparr>)"
proof -
  have "length demo_values = 3" by (simp add: demo_values_def)
  then show ?thesis
    by (simp add: send_def demo_sender_def demo_pack demo_payload_crc le_bytes_2 demo_frame_def)
qed

lemma demo_frame_valid:
  "validate_crc (take (length demo_frame - 2) demo_frame)
     (le_int (drop (length demo_frame - 2) demo_frame))"
  by (simp add: demo_frame_def validate_crc_def demo_payload_crc)

lemma demo_values_sendable: "list_all (sendable T_f) demo_values"
  by (simp add: demo_values_def f64_exponent_def)

lemma demo_values_stored: "map (stored_as T_f) demo_values = demo_values"
  by (simp add: demo_values_def stored_as_f32_exact f32_exact_def f64_exponent_def)

lemma tenth_stored: "stored_as T_f tenth = tenth_as_f32"
  by (simp add: tenth_def tenth_as_f32_def stored_as_def demo_f32 f64_of_f32_def Let_def)

lemma tenth_send:
  "send tenth_sender [tenth] = Inr (True, Some tenth_frame, tenth_sender\<lparr>packets_sent := 1\<rparr>)"
proof -
  have crc: "crc16 [205, 204, 204, 61] = 38178"
    by (simp add: crc16_def crc_byte_unfold crc_shift_def)
  have "pack_values T_f [tenth] = Inr [205, 204, 204, 61]"
    by (simp add: tenth_def pack_value_def demo_f32 le_bytes_4)
  then show ?thesis
    by (simp add: send_def tenth_sender_def demo_sender_def crc le_bytes_2 tenth_frame_def)
qed

text \<open>
  C6. The claim: encoding a vector into a frame and decoding the frame yields the original
  vector. The default element type \<open>f\<close> stores a float in 32 bits, so a Python float that
  binary32 does not represent comes back changed. Counterexample: the sender of one \<open>f\<close>
  value sends the vector of the float 0.1; the frame carries the bytes of 0x3DCCCCCD, and
  the receiver stores the float 0.10000000149011612.
\<close>

theorem float32_frame_rounds_value:
  "send tenth_sender [tenth] = Inr (True, Some tenth_frame, tenth_sender\<lparr>packets_sent := 1\<rparr>) \<and>
   (\<exists>r'. receive_step tenth_receiver tenth_frame (''192.168.0.20'', 5431) 10 = Inr (Continue, r') \<and>
         latest_data r' = Some [tenth_as_f32] \<and> packets_corrupted r' = 0) \<and>
   tenth_as_f32 \<noteq> tenth"
proof -
  have f: "receive_type tenth_receiver = Some (send_type tenth_sender)"
    "num_inputs tenth_receiver = num_outputs tenth_sender"
    "send_type tenth_sender = T_f" "packets_corrupted tenth_receiver = 0"
    by (simp_all add: tenth_receiver_def tenth_sender_def demo_receiver_def demo_sender_def)
  from receive_sent_frame [OF tenth_send f(1,2), of "(''192.168.0.20'', 5431)" 10]
  have "\<exists>r'. receive_step tenth_receiver tenth_frame (''192.168.0.20'', 5431) 10 = Inr (Continue, r') \<and>
         latest_data r' = Some [tenth_as_f32] \<and> packets_corrupted r' = 0"
    by (auto simp add: f tenth_stored)
  moreover have "tenth_as_f32 \<noteq> tenth" by (simp add: tenth_def tenth_as_f32_def)
  ultimately show ?thesis using tenth_send by blast
qed

text \<open>
  C6 as amended. For every vector of the negotiated length whose values the element type
  takes, \<open>send\<close> builds a frame (the packed values followed by the checksum of the payload
  as two little-endian bytes) and hands it to the socket; a receiver of the matching shape
  accepts the frame, and its latest-value slot then holds the vector as the element type
  stores it: unchanged for an integer type, unchanged for a float sent as \<open>d\<close>, and for
  \<open>f\<close> every float rounded to binary32, which leaves a float unchanged that binary32
  represents. For every frame of the right size with a valid checksum, flipping one bit of
  the payload makes the receiver drop it: \<open>packets_corrupted\<close> goes up by one, the
  latest-value slot is unchanged, and \<open>get_latest\<close> returns what it would have returned
  before.
\<close>

theorem frame_roundtrip_and_bit_flip:
  "(remote_addr st \<noteq> None \<and> length vs = num_outputs st \<and>
      list_all (sendable (send_type st)) vs
    \<longrightarrow> (\<exists>payload. pack_values (send_type st) vs = Inr payload \<and>
           send st vs = Inr (True, Some (payload @ le_bytes 2 (uint (crc16 payload))),
                             st\<lparr>packets_sent := packets_sent st + 1\<rparr>) \<and>
           (receive_type r = Some (send_type st) \<and> num_inputs r = num_outputs st
            \<longrightarrow> (\<exists>r'. receive_step r (payload @ le_bytes 2 (uint (crc16 payload))) a t
                        = Inr (Continue, r') \<and>
                   latest_data r' = Some (map (stored_as (send_type st)) vs) \<and>
                   latest_timestamp r' = t \<and> packets_received r' = packets_received r + 1 \<and>
                   packets_corrupted r' = packets_corrupted r)))) \<and>
   (\<not> is_float ty \<longrightarrow> stored_as ty v = v) \<and>
   stored_as T_d (PyFloat w) = PyFloat w \<and>
   (f32_exact w \<longrightarrow> stored_as T_f (PyFloat w) = PyFloat w) \<and>
   (receive_type r = Some rt \<and> length frame = calcsize rt * num_inputs r + 2 \<and>
      validate_crc (take (length frame - 2) frame) (le_int (drop (length frame - 2) frame)) \<and>
      k < length frame - 2 \<and> j < 8
    \<longrightarrow> receive_step r (frame[k := flip_bit j (frame ! k)]) a t
          = Inr (Continue, (learn_addr r a)\<lparr>packets_corrupted := packets_corrupted r + 1\<rparr>) \<and>
        packets_corrupted ((learn_addr r a)\<lparr>packets_corrupted := packets_corrupted r + 1\<rparr>)
          = packets_corrupted r + 1 \<and>
        latest_data ((learn_addr r a)\<lparr>packets_corrupted := packets_corrupted r + 1\<rparr>)
          = latest_data r \<and>
        fst (get_latest ((learn_addr r a)\<lparr>packets_corrupted := packets_corrupted r + 1\<rparr>) now)
          = fst (get_latest r now))"
proof (intro conjI impI)
  assume a: "remote_addr st \<noteq> None \<and> length vs = num_outputs st \<and>
      list_all (sendable (send_type st)) vs"
  then obtain payload where pk: "pack_values (send_type st) vs = Inr payload"
    and sd: "send st vs = Inr (True, Some (payload @ le_bytes 2 (uint (crc16 payload))),
                             st\<lparr>packets_sent := packets_sent st + 1\<rparr>)"
    using send_sendable [of st vs] by blast
  have "\<exists>r'. receive_step r (payload @ le_bytes 2 (uint (crc16 payload))) a t = Inr (Continue, r') \<and>
           latest_data r' = Some (map (stored_as (send_type st)) vs) \<and>
           latest_timestamp r' = t \<and> packets_received r' = packets_received r + 1 \<and>
           packets_corrupted r' = packets_corrupted r"
    if "receive_type r = Some (send_type st) \<and> num_inputs r = num_outputs st"
    using receive_sent_frame [OF sd, of r a t] that by blast
  with pk sd show "\<exists>payload. pack_values (send_type st) vs = Inr payload \<and>
           send st vs = Inr (True, Some (payload @ le_bytes 2 (uint (crc16 payload))),
                             st\<lparr>packets_sent := packets_sent st + 1\<rparr>) \<and>
           (receive_type r = Some (send_type st) \<and> num_inputs r = num_outputs st
            \<longrightarrow> (\<exists>r'. receive_step r (payload @ le_bytes 2 (uint (crc16 payload))) a t
                        = Inr (Continue, r') \<and>
                   latest_data r' = Some (map (stored_as (send_type st)) vs) \<and>
                   latest_timestamp r' = t \<and> packets_received r' = packets_received r + 1 \<and>
                   packets_corrupted r' = packets_corrupted r))"
    by blast
next
  assume "\<not> is_float ty"
  then show "stored_as ty v = v" by (rule stored_as_int)
next
  show "stored_as T_d (PyFloat w) = PyFloat w" by (rule stored_as_double)
next
  assume "f32_exact w"
  then show "stored_as T_f (PyFloat w) = PyFloat w" by (rule stored_as_f32_exact)
next
  assume b: "receive_type r = Some rt \<and> length frame = calcsize rt * num_inputs r + 2 \<and>
      validate_crc (take (length frame - 2) frame) (le_int (drop (length frame - 2) frame)) \<and>
      k < length frame - 2 \<and> j < 8"
  then show "receive_step r (frame[k := flip_bit j (frame ! k)]) a t
          = Inr (Continue, (learn_addr r a)\<lparr>packets_corrupted := packets_corrupted r + 1\<rparr>)"
    using receive_flipped_frame [of r rt frame k j a t] by blast
  show "packets_corrupted ((learn_addr r a)\<lparr>packets_corrupted := packets_corrupted r + 1\<rparr>)
          = packets_corrupted r + 1" by simp
  show "latest_data ((learn_addr r a)\<lparr>packets_corrupted := packets_corrupted r + 1\<rparr>)
          = latest_data r" by simp
  show "fst (get_latest ((learn_addr r a)\<lparr>packets_corrupted := packets_corrupted r + 1\<rparr>) now)
          = fst (get_latest r now)"
    by (auto simp add: get_latest_def Let_def split: option.splits)
qed

theorem frame_roundtrip_and_bit_flip_witness:
  "send demo_sender demo_values = Inr (True, Some demo_frame, demo_sender\<lparr>packets_sent := 1\<rparr>) \<and>
   (\<exists>r'. receive_step demo_receiver demo_frame (''192.168.0.20'', 5431) 10 = Inr (Continue, r') \<and>
         latest_data r' = Some demo_values \<and> latest_timestamp r' = 10 \<and>
         packets_received r' = packets_received demo_receiver + 1 \<and>
         packets_corrupted r' = packets_corrupted demo_receiver) \<and>
   stored_as T_i (PyInt (- 5)) = PyInt (- 5) \<and>
   stored_as T_f (PyFloat 0x3FF0000000000000) = PyFloat 0x3FF0000000000000 \<and>
   receive_step demo_receiver (demo_frame[11 := flip_bit 0 (demo_frame ! 11)])
       (''192.168.0.20'', 5431) 10
     = Inr (Continue, (learn_addr demo_receiver (''192.168.0.20'', 5431))
                        \<lparr>packets_corrupted := packets_corrupted demo_receiver + 1\<rparr>)"
proof -
  have f: "receive_type demo_receiver = Some (send_type demo_sender)"
    "num_inputs demo_receiver = num_outputs demo_sender"
    "receive_type demo_receiver = Some T_f"
    "length demo_frame = calcsize T_f * num_inputs demo_receiver + 2"
    "(11::nat) < length demo_frame - 2" "(0::nat) < 8"
    "remote_addr demo_sender \<noteq> None" "length demo_values = num_outputs demo_sender"
    "send_type demo_sender = T_f" "packets_sent demo_sender = 0"
    by (simp_all add: demo_receiver_def demo_sender_def demo_frame_def demo_values_def)
  have h: "remote_addr demo_sender \<noteq> None \<and> length demo_values = num_outputs demo_sender \<and>
      list_all (sendable (send_type demo_sender)) demo_values"
    using f demo_values_sendable by simp
  have g: "receive_type demo_receiver = Some T_f \<and>
      length demo_frame = calcsize T_f * num_inputs demo_receiver + 2 \<and>
      validate_crc (take (length demo_frame - 2) demo_frame)
        (le_int (drop (length demo_frame - 2) demo_frame)) \<and>
      11 < length demo_frame - 2 \<and> (0::nat) < 8"
    using f demo_frame_valid by simp
  have ex: "f32_exact 0x3FF0000000000000" "\<not> is_float T_i"
    by (simp_all add: f32_exact_def f64_exponent_def)
  note t = frame_roundtrip_and_bit_flip [of demo_sender demo_values demo_receiver
      "(''192.168.0.20'', 5431)" 10 T_i "PyInt (- 5)" "0x3FF0000000000000" T_f demo_frame 11 0 0]
  from t [THEN conjunct1, rule_format, OF h] obtain payload where
    pk: "pack_values (send_type demo_sender) demo_values = Inr payload"
    and sd: "send demo_sender demo_values
        = Inr (True, Some (payload @ le_bytes 2 (uint (crc16 payload))),
               demo_sender\<lparr>packets_sent := packets_sent demo_sender + 1\<rparr>)"
    and rc: "receive_type demo_receiver = Some (send_type demo_sender) \<and>
        num_inputs demo_receiver = num_outputs demo_sender
      \<longrightarrow> (\<exists>r'. receive_step demo_receiver (payload @ le_bytes 2 (uint (crc16 payload)))
                   (''192.168.0.20'', 5431) 10 = Inr (Continue, r') \<and>
             latest_data r' = Some (map (stored_as (send_type demo_sender)) demo_values) \<and>
             latest_timestamp r' = 10 \<and>
             packets_received r' = packets_received demo_receiver + 1 \<and>
             packets_corrupted r' = packets_corrupted demo_receiver)"
    by blast
  from pk have "payload = [0, 0, 128, 63, 0, 0, 0, 63, 0, 0, 0, 0]"
    by (simp add: f demo_pack)
  then have fr: "payload @ le_bytes 2 (uint (crc16 payload)) = demo_frame"
    by (simp add: demo_payload_crc le_bytes_2 demo_frame_def)
  have a: "send demo_sender demo_values
      = Inr (True, Some demo_frame, demo_sender\<lparr>packets_sent := 1\<rparr>)"
    using sd unfolding fr by (simp add: f)
  have b: "\<exists>r'. receive_step demo_receiver demo_frame (''192.168.0.20'', 5431) 10 = Inr (Continue, r') \<and>
         latest_data r' = Some demo_values \<and> latest_timestamp r' = 10 \<and>
         packets_received r' = packets_received demo_receiver + 1 \<and>
         packets_corrupted r' = packets_corrupted demo_receiver"
    using rc f(1,2) unfolding fr by (simp add: f(9) demo_values_stored)
  have c: "stored_as T_i (PyInt (- 5)) = PyInt (- 5)"
    using t [THEN conjunct2, THEN conjunct1] ex(2) by blast
  have d: "stored_as T_f (PyFloat 0x3FF0000000000000) = PyFloat 0x3FF0000000000000"
    using t [THEN conjunct2, THEN conjunct2, THEN conjunct2, THEN conjunct1] ex(1) by blast
  have e: "receive_step demo_receiver (demo_frame[11 := flip_bit 0 (demo_frame ! 11)])
       (''192.168.0.20'', 5431) 10
     = Inr (Continue, (learn_addr demo_receiver (''192.168.0.20'', 5431))
                        \<lparr>packets_corrupted := packets_corrupted demo_receiver + 1\<rparr>)"
    using t [THEN conjunct2, THEN conjunct2, THEN conjunct2, THEN conjunct2, rule_format, OF g]
    by blast
  from a b c d e show ?thesis by blast
qed

text \<open>
  C7. \<open>get_latest\<close> returns the stored vector only when the session runs and the vector
  is at most \<open>max_age_seconds\<close> old; it then clears the slot, so that a second call
  returns no value, whenever it is made. For a stored vector that is older it returns no
  value and increments \<open>packets_expired\<close>.
\<close>

theorem get_latest_freshness:
  "(fst (get_latest st now) = Returned v
    \<longrightarrow> running st \<and> latest_data st = Some v \<and>
        now - latest_timestamp st \<le> max_age_seconds st \<and>
        latest_data (snd (get_latest st now)) = None \<and>
        fst (get_latest (snd (get_latest st now)) later) = ReturnedNone) \<and>
   (running st \<and> latest_data st = Some v \<and> max_age_seconds st < now - latest_timestamp st
    \<longrightarrow> get_latest st now = (ReturnedNone, st\<lparr>packets_expired := packets_expired st + 1\<rparr>))"
  by (auto simp add: get_latest_def Let_def split: option.splits if_splits)

lemma demo_received_fields:
  "running demo_received" "latest_data demo_received = Some demo_values"
  "latest_timestamp demo_received = 10" "max_age_seconds demo_received = 1"
  "packets_expired demo_received = 0"
proof -
  have f: "receive_type demo_receiver = Some (send_type demo_sender)"
    "num_inputs demo_receiver = num_outputs demo_sender"
    by (simp_all add: demo_receiver_def demo_sender_def)
  have t: "send_type demo_sender = T_f" by (simp add: demo_sender_def)
  from receive_sent_frame [OF demo_send f, of "(''192.168.0.20'', 5431)" 10]
  obtain r' where r: "receive_step demo_receiver demo_frame (''192.168.0.20'', 5431) 10 = Inr (Continue, r')"
    and d: "latest_data r' = Some demo_values" "latest_timestamp r' = 10"
    by (auto simp add: t demo_values_stored)
  have eq: "demo_received = r'" by (simp add: demo_received_def r)
  show "latest_data demo_received = Some demo_values" "latest_timestamp demo_received = 10"
    using d by (simp_all add: eq)
  from r have "running r' = running demo_receiver \<and> max_age_seconds r' = max_age_seconds demo_receiver
      \<and> packets_expired r' = packets_expired demo_receiver"
    by (auto simp add: receive_step_def Let_def split: option.splits if_splits)
  then show "running demo_received" "max_age_seconds demo_received = 1"
    "packets_expired demo_received = 0"
    by (simp_all add: eq demo_receiver_def demo_sender_def)
qed

theorem get_latest_freshness_witness:
  "fst (get_latest demo_received 10.5) = Returned demo_values \<and>
   fst (get_latest (snd (get_latest demo_received 10.5)) 10.6) = ReturnedNone \<and>
   get_latest demo_received 12 = (ReturnedNone, demo_received\<lparr>packets_expired := 1\<rparr>)"
proof -
  have a: "fst (get_latest demo_received 10.5) = Returned demo_values"
    by (simp add: get_latest_def demo_received_fields)
  have b: "running demo_received \<and> latest_data demo_received = Some demo_values \<and>
      max_age_seconds demo_received < 12 - latest_timestamp demo_received"
    by (simp add: demo_received_fields)
  from get_latest_freshness [of demo_received "10.5" demo_values "10.6"] a
    get_latest_freshness [of demo_received 12 demo_values] b
  show ?thesis by (simp add: demo_received_fields)
qed

section \<open>The operation coordinator\<close>

lemma check_operation_busy:
  "current_operation st \<noteq> OpNone \<Longrightarrow>
     check_operation st sock ctx = (False, send_error st sock (busy_message st) ctx)"
  by (cases "current_operation st") (simp_all add: check_operation_def)

lemma check_operation_free:
  "current_operation st = OpNone \<Longrightarrow> check_operation st sock ctx = (True, st)"
  by (simp add: check_operation_def)

lemma start_entries_busy:
  assumes "current_operation st \<noteq> OpNone"
  shows "start_driving_entry st sock
           = (Return None, send_error st sock (busy_message st) ''start_driving'')"
    and "start_mirroring_entry st sock
           = (Return (Some False), send_error st sock (busy_message st) ''start_mirroring'')"
    and "start_driving_and_mirroring_entry st sock
           = (Return (Some False),
              send_error st sock (busy_message st) ''start_driving_and_mirroring'')"
  by (simp_all only: start_driving_entry_def start_mirroring_entry_def
      start_driving_and_mirroring_entry_def check_operation_busy [OF assms]
      Let_def prod.case not_False_eq_True if_True)

lemma start_entries_proceed:
  "fst (start_driving_entry st sock) = Proceed \<Longrightarrow> current_operation st = OpNone"
  "fst (start_mirroring_entry st sock) = Proceed \<Longrightarrow> current_operation st = OpNone"
  "fst (start_driving_and_mirroring_entry st sock) = Proceed \<Longrightarrow> current_operation st = OpNone"
  using start_entries_busy [of st sock] by (cases "current_operation st = OpNone"; simp)+

lemma start_driving_claims:
  assumes "current_operation st = OpNone" "\<not> driving st" "\<not> driving_starting st"
    "\<not> driving_stopping st"
  shows "start_driving_entry st sock =
     (Proceed, st\<lparr>driving_starting := True, current_operation := OpDriving, driving := True\<rparr>)"
  using assms by (simp add: start_driving_entry_def check_operation_free)

lemma busy_message_driving:
  "current_operation st = OpDriving \<Longrightarrow>
     busy_message st
       = ''Operation: driving already underway stop it first to start a different one.''"
  by (simp add: busy_message_def)

text \<open>
  The guard of the start transitions. With an operation under way each of \<open>start_driving\<close>,
  \<open>start_mirroring\<close> and \<open>start_driving_and_mirroring\<close> returns at once, having sent an
  error event with the name of the transition as its context, and leaves the current
  operation as it was; a transition goes on to claim the operation only from the state
  none. After a \<open>start_driving\<close> that has claimed the operation, a second \<open>start_driving\<close>
  (from any client) gets an error event with context \<open>start_driving\<close>.
\<close>

lemma start_transitions_guard:
  "(current_operation st \<noteq> OpNone \<longrightarrow>
      start_driving_entry st sock
        = (Return None, send_error st sock (busy_message st) ''start_driving'') \<and>
      start_mirroring_entry st sock
        = (Return (Some False), send_error st sock (busy_message st) ''start_mirroring'') \<and>
      start_driving_and_mirroring_entry st sock
        = (Return (Some False),
           send_error st sock (busy_message st) ''start_driving_and_mirroring'') \<and>
      current_operation (send_error st sock (busy_message st) ctx) = current_operation st) \<and>
   (fst (start_driving_entry st sock) = Proceed \<longrightarrow> current_operation st = OpNone) \<and>
   (fst (start_mirroring_entry st sock) = Proceed \<longrightarrow> current_operation st = OpNone) \<and>
   (fst (start_driving_and_mirroring_entry st sock) = Proceed \<longrightarrow> current_operation st = OpNone) \<and>
   (current_operation st = OpNone \<and> \<not> driving st \<and> \<not> driving_starting st \<and>
      \<not> driving_stopping st \<longrightarrow>
      fst (start_driving_entry st first) = Proceed \<and>
      current_operation (snd (start_driving_entry st first)) = OpDriving \<and>
      start_driving_entry (snd (start_driving_entry st first)) second
        = (Return None,
           send_error (snd (start_driving_entry st first)) second
             ''Operation: driving already underway stop it first to start a different one.''
             ''start_driving''))"
proof (intro conjI impI)
  assume busy: "current_operation st \<noteq> OpNone"
  show "start_driving_entry st sock
        = (Return None, send_error st sock (busy_message st) ''start_driving'')"
    by (rule start_entries_busy(1) [OF busy])
  show "start_mirroring_entry st sock
        = (Return (Some False), send_error st sock (busy_message st) ''start_mirroring'')"
    by (rule start_entries_busy(2) [OF busy])
  show "start_driving_and_mirroring_entry st sock
        = (Return (Some False),
           send_error st sock (busy_message st) ''start_driving_and_mirroring'')"
    by (rule start_entries_busy(3) [OF busy])
  show "current_operation (send_error st sock (busy_message st) ctx) = current_operation st"
    by (simp add: send_error_def)
next
  assume "fst (start_driving_entry st sock) = Proceed"
  then show "current_operation st = OpNone" by (rule start_entries_proceed)
next
  assume "fst (start_mirroring_entry st sock) = Proceed"
  then show "current_operation st = OpNone" by (rule start_entries_proceed)
next
  assume "fst (start_driving_and_mirroring_entry st sock) = Proceed"
  then show "current_operation st = OpNone" by (rule start_entries_proceed)
next
  assume free: "current_operation st = OpNone \<and> \<not> driving st \<and> \<not> driving_starting st \<and>
      \<not> driving_stopping st"
  then have c: "start_driving_entry st first =
     (Proceed, st\<lparr>driving_starting := True, current_operation := OpDriving, driving := True\<rparr>)"
    by (simp add: start_driving_claims)
  show "fst (start_driving_entry st first) = Proceed" by (simp add: c)
  show op: "current_operation (snd (start_driving_entry st first)) = OpDriving" by (simp add: c)
  then have "current_operation (snd (start_driving_entry st first)) \<noteq> OpNone" by simp
  from start_entries_busy(1) [OF this, of second]
  show "start_driving_entry (snd (start_driving_entry st first)) second
        = (Return None,
           send_error (snd (start_driving_entry st first)) second
             ''Operation: driving already underway stop it first to start a different one.''
             ''start_driving'')"
    by (simp only: busy_message_driving [OF op])
qed

lemma start_transitions_guard_example:
  "fst (start_driving_entry idle_api (Some 1)) = Proceed \<and>
   current_operation (snd (start_driving_entry idle_api (Some 1))) = OpDriving \<and>
   start_driving_entry (snd (start_driving_entry idle_api (Some 1))) (Some 2)
     = (Return None,
        (snd (start_driving_entry idle_api (Some 1)))
          \<lparr>tcp_sent := [(Some 2, ErrorEvent
             ''Operation: driving already underway stop it first to start a different one.''
             ''start_driving'')]\<rparr>) \<and>
   start_mirroring_entry (snd (start_driving_entry idle_api (Some 1))) (Some 2)
     = (Return (Some False),
        send_error (snd (start_driving_entry idle_api (Some 1))) (Some 2)
          (busy_message (snd (start_driving_entry idle_api (Some 1)))) ''start_mirroring'')"
proof -
  let ?s1 = "snd (start_driving_entry idle_api (Some 1))"
  have i: "current_operation idle_api = OpNone \<and> \<not> driving idle_api \<and>
      \<not> driving_starting idle_api \<and> \<not> driving_stopping idle_api"
    by (simp add: idle_api_def)
  have s: "tcp_sent ?s1 = []"
    by (simp add: start_driving_entry_def check_operation_def idle_api_def)
  note t1 = start_transitions_guard [of idle_api "Some 1" undefined "Some 1" "Some 2"]
  from t1 [THEN conjunct2, THEN conjunct2, THEN conjunct2, THEN conjunct2, rule_format, OF i]
  have a: "fst (start_driving_entry idle_api (Some 1)) = Proceed \<and>
    current_operation ?s1 = OpDriving \<and>
    start_driving_entry ?s1 (Some 2)
      = (Return None, send_error ?s1 (Some 2)
           ''Operation: driving already underway stop it first to start a different one.''
           ''start_driving'')" .
  then have busy: "current_operation ?s1 \<noteq> OpNone" by simp
  note t2 = start_transitions_guard [of ?s1 "Some 2" undefined "Some 1" "Some 2"]
  from t2 [THEN conjunct1, rule_format, OF busy]
  have b: "start_mirroring_entry ?s1 (Some 2)
     = (Return (Some False), send_error ?s1 (Some 2) (busy_message ?s1) ''start_mirroring'')"
    by (rule conjunct2 [THEN conjunct1])
  have e: "send_error ?s1 (Some 2) m c = ?s1\<lparr>tcp_sent := [(Some 2, ErrorEvent m c)]\<rparr>" for m c
    by (simp only: send_error_def s append_Nil)
  from a b show ?thesis by (simp only: e)
qed


lemmas coordinator_eval_defs =
  driving_started_def driving_reset_locked_def overlap_before_flags_def overlap_after_flags_def
  start_driving_entry_def start_driving_finish_def stop_driving_entry_def
  stop_driving_respond_def reset_operation_locked_def reset_operation_flags_def
  start_mirroring_entry_def check_operation_def send_response_def send_error_def
  idle_api_def active_operations_def Let_def

text \<open>
  C8. The claim: at most one operation is in a state other than none at any time. The
  start transitions check the current operation under the lock, but
  \<open>_reset_operation_values\<close> sets the current operation to none inside the lock and clears
  the flags of the stopped operation only after it has released the lock. In between, a
  start of another operation passes the check. Client 1 starts driving and stops it again;
  when the stop has left the locked block of the reset, driving is still in the state
  stopping and the current operation is none. The \<open>start_mirroring\<close> of client 2 then
  proceeds: mirroring is in the state starting while driving is still stopping, two
  operations in a state other than none. Only when the stop goes on does driving return to
  none.
\<close>

theorem reset_window_admits_second_operation:
  "fst (start_driving_entry idle_api (Some 1)) = Proceed \<and>
   fst (stop_driving_entry driving_started (Some 1)) = Proceed \<and>
   fst driving_reset_locked = ''driving'' \<and>
   current_operation (snd driving_reset_locked) = OpNone \<and>
   active_operations (snd driving_reset_locked) = [OpDriving] \<and>
   fst (start_mirroring_entry (snd driving_reset_locked) (Some 2)) = Proceed \<and>
   current_operation overlap_before_flags = OpMirroring \<and>
   active_operations overlap_before_flags = [OpMirroring, OpDriving] \<and>
   driving overlap_before_flags \<and> driving_stopping overlap_before_flags \<and>
   mirroring overlap_before_flags \<and> mirroring_starting overlap_before_flags \<and>
   active_operations overlap_after_flags = [OpMirroring]"
  by (simp add: coordinator_eval_defs)

section \<open>Rates on the control channel\<close>

text \<open>
  The caps themselves are rejected: the comparison of \<open>__validate_rate\<close> is strict on both
  sides, so a mirroring send rate of 150, a driving command rate of 25 and a rate equal to
  \<open>MIN_RATE\<close> all get the error of the rate check.
\<close>

theorem rate_caps_are_exclusive:
  "parse_start_mirroring_params (Number 150)
     = Inl (RateNotBetween ''orientation_send_rate'' MIN_RATE 150) \<and>
   parse_start_driving_params [''boom''] (Some [''boom'']) (Number 25)
     = Inl (RateNotBetween ''data_sending_rate'' MIN_RATE 25) \<and>
   parse_start_mirroring_params (Number 0.1)
     = Inl (RateNotBetween ''orientation_send_rate'' MIN_RATE 150)"
  by (simp add: parse_start_mirroring_params_def parse_start_driving_params_def
      validate_rate_def validate_channel_names_def MIN_RATE_def
      ORIENTATION_SEND_MAX_RATE_def COMMAND_RECEIVE_MAX_RATE_def)

lemma validate_rate_iff:
  "(validate_rate r ctx (Some cap) = None) = (MIN_RATE < r \<and> r < cap)"
  by (simp add: validate_rate_def)

text \<open>
  C9. The rate check accepts a rate exactly when it lies strictly between \<open>MIN_RATE\<close> and
  the cap of the use site. A non-zero numeric send rate of \<open>start_mirroring\<close> is accepted
  iff \<open>MIN_RATE < r < 150\<close>; with valid channel names, a non-zero numeric command rate of
  \<open>start_driving\<close> is accepted iff \<open>MIN_RATE < r < 25\<close>, and the two rates of
  \<open>start_driving_and_mirroring\<close> are accepted iff both hold, for the receiving rate with
  the cap 150 and for the sending rate with the cap 25.
\<close>

theorem rate_validation_bounds:
  "((validate_rate r ctx (Some cap) = None) = (MIN_RATE < r \<and> r < cap)) \<and>
   (r \<noteq> 0 \<longrightarrow>
      (\<not> isl (parse_start_mirroring_params (Number r)))
        = (MIN_RATE < r \<and> r < ORIENTATION_SEND_MAX_RATE)) \<and>
   (r \<noteq> 0 \<and> validate_channel_names existing names = None \<longrightarrow>
      (\<not> isl (parse_start_driving_params existing (Some names) (Number r)))
        = (MIN_RATE < r \<and> r < COMMAND_RECEIVE_MAX_RATE)) \<and>
   (s \<noteq> 0 \<and> rcv \<noteq> 0 \<and> names \<noteq> [] \<and> validate_channel_names existing names = None \<longrightarrow>
      (\<not> isl (parse_start_driving_and_mirroring_params existing (Some names) (Number s) (Number rcv)))
        = (MIN_RATE < s \<and> s < COMMAND_RECEIVE_MAX_RATE \<and>
           MIN_RATE < rcv \<and> rcv < ORIENTATION_SEND_MAX_RATE))"
proof (intro conjI impI)
  show "(validate_rate r ctx (Some cap) = None) = (MIN_RATE < r \<and> r < cap)"
    by (rule validate_rate_iff)
next
  assume "r \<noteq> 0"
  then show "(\<not> isl (parse_start_mirroring_params (Number r)))
        = (MIN_RATE < r \<and> r < ORIENTATION_SEND_MAX_RATE)"
    by (simp add: parse_start_mirroring_params_def validate_rate_def)
next
  assume "r \<noteq> 0 \<and> validate_channel_names existing names = None"
  then show "(\<not> isl (parse_start_driving_params existing (Some names) (Number r)))
        = (MIN_RATE < r \<and> r < COMMAND_RECEIVE_MAX_RATE)"
    by (auto simp add: parse_start_driving_params_def validate_rate_def
        COMMAND_RECEIVE_MAX_RATE_def MAX_RATE_def)
next
  assume "s \<noteq> 0 \<and> rcv \<noteq> 0 \<and> names \<noteq> [] \<and> validate_channel_names existing names = None"
  then show "(\<not> isl (parse_start_driving_and_mirroring_params existing (Some names)
                        (Number s) (Number rcv)))
        = (MIN_RATE < s \<and> s < COMMAND_RECEIVE_MAX_RATE \<and>
           MIN_RATE < rcv \<and> rcv < ORIENTATION_SEND_MAX_RATE)"
    by (auto simp add: parse_start_driving_and_mirroring_params_def validate_rate_def)
qed

theorem rate_validation_bounds_witness:
  "\<not> isl (parse_start_mirroring_params (Number 100)) \<and>
   isl (parse_start_mirroring_params (Number 200)) \<and>
   \<not> isl (parse_start_driving_params [''boom''] (Some [''boom'']) (Number 20)) \<and>
   isl (parse_start_driving_params [''boom''] (Some [''boom'']) (Number 30)) \<and>
   \<not> isl (parse_start_driving_and_mirroring_params [''boom''] (Some [''boom''])
            (Number 20) (Number 100))"
proof -
  have names: "validate_channel_names [''boom''] [''boom''] = None"
    by (simp add: validate_channel_names_def)
  from rate_validation_bounds [of 100 "''x''" 150 "[''boom'']" "[''boom'']" 20 100]
    rate_validation_bounds [of 200 "''x''" 150 "[''boom'']" "[''boom'']" 20 100]
    rate_validation_bounds [of 20 "''x''" 150 "[''boom'']" "[''boom'']" 20 100]
    rate_validation_bounds [of 30 "''x''" 150 "[''boom'']" "[''boom'']" 20 100]
    names
  show ?thesis
    by (simp add: MIN_RATE_def ORIENTATION_SEND_MAX_RATE_def COMMAND_RECEIVE_MAX_RATE_def)
qed

lemma zero_rate_skips_validation:
  "parse_start_mirroring_params (Number 0) = Inr (Number 0)"
  "validate_channel_names existing names = None \<Longrightarrow>
     parse_start_driving_params existing (Some names) (Number 0) = Inr (names, Number 0)"
  by (simp_all add: parse_start_mirroring_params_def parse_start_driving_params_def)

end
